theory Spec2Isabelle
  imports Complex_Main "HOL-Library.AList" "HOL-Library.Sublist"
begin

section \<open>Common Python notions\<close>

text \<open>
  The exceptions that the modelled code can raise: a failed \<^verbatim>\<open>assert\<close>, a negative
  argument of \<^verbatim>\<open>time.sleep\<close> or a malformed link given to \<^verbatim>\<open>urljoin\<close>, an index
  outside a list, \<^verbatim>\<open>None\<close> where a path is expected, a directory or a file that cannot
  be made or opened, and any other exception that a browser session raises.
\<close>

datatype py_error = AssertionError | ValueError | IndexError | TypeError | OSError | OtherError

text \<open>
  \<^verbatim>\<open>os.path.dirname\<close>: what stands before the last slash, without the slashes that end
  it unless it has nothing else.
\<close>

definition dirname :: "string \<Rightarrow> string" where
  "dirname p =
     (let head = rev (dropWhile (\<lambda>c. c \<noteq> CHR ''/'') (rev p))
      in if dropWhile (\<lambda>c. c = CHR ''/'') head \<noteq> []
         then rev (dropWhile (\<lambda>c. c = CHR ''/'') (rev head))
         else head)"

section \<open>WebHtmlExtractor: the fetcher\<close>

text \<open>
  Header dictionaries keep their insertion order and may hold \<^verbatim>\<open>None\<close> values (the
  default \<^verbatim>\<open>Cookie\<close> entry does); POST data is a dictionary of strings. Numbers of
  seconds are exact rationals: the rounding of Python's floats is not modelled.
\<close>

type_synonym headers = "(string \<times> string option) list"
type_synonym payload = "(string \<times> string) list"

record request =
  rq_method :: string
  rq_url :: string
  rq_headers :: headers
  rq_data :: "payload option"
  rq_timeout :: rat

text \<open>
  What one call of \<^verbatim>\<open>requests.get\<close> or \<^verbatim>\<open>requests.post\<close> does: it returns a response
  (status code, final URL, body) or raises \<^verbatim>\<open>RequestException\<close>, of which
  \<^verbatim>\<open>Timeout\<close> is a subclass.
\<close>

datatype http_outcome =
  Response int string string
| RequestException

text \<open>
  What one browser session does: the page is rendered (final URL, page source); or
  \<^verbatim>\<open>webdriver.Chrome\<close> raises \<^verbatim>\<open>WebDriverException\<close> and no driver exists; or the
  driver exists and loading or waiting raises \<^verbatim>\<open>WebDriverException\<close> or
  \<^verbatim>\<open>TimeoutException\<close>; or the driver exists and some other exception is raised,
  which the \<^verbatim>\<open>except\<close> clause does not catch.
\<close>

datatype browser_outcome =
  Rendered string string
| LaunchFails
| PageFails
| PageCrashes

text \<open>What happens to drivers, in order; a driver is named by a number.\<close>

datatype browser_event = Launch nat | Quit nat

text \<open>
  The external capabilities: the HTTP client (its answer may depend on how many requests
  were issued before, and on the request), the browser automation (its answer may depend
  on how many sessions were started before, and on the URL), the random user agent of
  \<^verbatim>\<open>fake_useragent\<close> (indexed by the number of earlier draws), and
  \<^verbatim>\<open>urlsplit\<close>, reduced to the \<^verbatim>\<open>scheme://netloc\<close> string that
  \<^verbatim>\<open>split_host_url\<close> formats from it.
\<close>

record net =
  http :: "nat \<Rightarrow> request \<Rightarrow> http_outcome"
  browser :: "nat \<Rightarrow> string \<Rightarrow> browser_outcome"
  user_agent :: "nat \<Rightarrow> string"
  scheme_netloc :: "string \<Rightarrow> string"

text \<open>
  The instance attributes set by \<^verbatim>\<open>__init__\<close>, and a log of what the instance has done
  to the outside world: the arguments of \<^verbatim>\<open>time.sleep\<close>, the requests issued,
  the number of user agents drawn, the number of browser sessions started and what
  happened to the drivers.
\<close>

record extractor =
  max_retry_times :: int
  header :: headers
  data :: payload
  time_sleep :: rat
  time_out :: rat
  sleeps :: "rat list"
  requests :: "request list"
  ua_draws :: nat
  sessions :: nat
  browser_log :: "browser_event list"

record html_dict =
  html_url :: string
  html_host_url :: string
  html_text :: "string option"
  html_status :: bool

text \<open>\<^verbatim>\<open>__init__\<close>: without a header the instance gets the default one, with a random user agent.\<close>

definition default_header :: "string \<Rightarrow> headers" where
  "default_header agent =
     [(''User-Agent'', Some agent),
      (''Accept'', Some ''text/html,application/xhtml+xml,application/xml;q=0.9,image/webp,*/*;q=0.8''),
      (''Accept-Language'', Some ''en-US,en;q=0.5''),
      (''Connection'', Some ''keep-alive''),
      (''Upgrade-Insecure-Requests'', Some ''1''),
      (''Cache-Control'', Some ''max-age=0''),
      (''Cookie'', None)]"

definition init :: "net \<Rightarrow> headers option \<Rightarrow> payload \<Rightarrow> rat \<Rightarrow> rat \<Rightarrow> int \<Rightarrow> extractor" where
  "init env header_arg data_arg time_sleep_arg time_out_arg max_retry_times_arg =
     \<lparr>max_retry_times = max_retry_times_arg,
      header = (case header_arg of
                  None \<Rightarrow> default_header (user_agent env 0)
                | Some h \<Rightarrow> if h = [] then default_header (user_agent env 0) else h),
      data = data_arg,
      time_sleep = time_sleep_arg,
      time_out = time_out_arg,
      sleeps = [],
      requests = [],
      ua_draws = (if header_arg = None \<or> header_arg = Some [] then 1 else 0),
      sessions = 0,
      browser_log = []\<rparr>"

definition split_host_url :: "net \<Rightarrow> string \<Rightarrow> string" where
  "split_host_url env url = (if url = [] then [] else scheme_netloc env url)"

text \<open>Truth value of an optional dictionary argument: \<^verbatim>\<open>None\<close> and \<^verbatim>\<open>{}\<close> are false.\<close>

fun truthy :: "('k \<times> 'v) list option \<Rightarrow> bool" where
  "truthy None = False"
| "truthy (Some d) = (d \<noteq> [])"

fun or_default :: "'a option \<Rightarrow> 'a \<Rightarrow> 'a" where
  "or_default None d = d"
| "or_default (Some x) d = x"

text \<open>
  The prologue of \<^verbatim>\<open>get_request_html\<close>: a header given by the caller replaces
  \<^verbatim>\<open>self.header\<close>, otherwise \<^verbatim>\<open>self.header\<close> gets a fresh random user agent;
  data given by the caller replaces \<^verbatim>\<open>self.data\<close>.
\<close>

definition set_header :: "net \<Rightarrow> headers option \<Rightarrow> extractor \<Rightarrow> extractor" where
  "set_header env header_arg s =
     (if truthy header_arg then s\<lparr>header := the header_arg\<rparr>
      else s\<lparr>header := AList.update ''User-Agent'' (Some (user_agent env (ua_draws s))) (header s),
             ua_draws := Suc (ua_draws s)\<rparr>)"

definition set_data :: "payload option \<Rightarrow> extractor \<Rightarrow> extractor" where
  "set_data data_arg s = (if truthy data_arg then s\<lparr>data := the data_arg\<rparr> else s)"

definition build_request :: "extractor \<Rightarrow> string \<Rightarrow> string \<Rightarrow> rat \<Rightarrow> request" where
  "build_request s method url timeout =
     \<lparr>rq_method = method, rq_url = url, rq_headers = header s,
      rq_data = (if method = ''get'' then None else Some (data s)),
      rq_timeout = timeout\<rparr>"

text \<open>The dictionary returned for a response with status code 200; nothing otherwise.\<close>

fun on_response :: "net \<Rightarrow> http_outcome \<Rightarrow> html_dict option" where
  "on_response env (Response code u body) =
     (if code = 200
      then Some \<lparr>html_url = u, html_host_url = split_host_url env u,
                 html_text = Some body, html_status = True\<rparr>
      else None)"
| "on_response env RequestException = None"

function get_request_html ::
  "net \<Rightarrow> extractor \<Rightarrow> string \<Rightarrow> string \<Rightarrow> rat option \<Rightarrow> int \<Rightarrow> headers option
     \<Rightarrow> payload option \<Rightarrow> rat option \<Rightarrow> (py_error + html_dict) \<times> extractor" where
  "get_request_html env s url method time_sleep_arg retry_times header_arg data_arg time_out_arg =
     (if method \<noteq> ''get'' \<and> method \<noteq> ''post'' then (Inl AssertionError, s)
      else
        let s1 = set_data data_arg (set_header env header_arg s);
            timeout = or_default time_out_arg (time_out s1);
            delay = or_default time_sleep_arg (time_sleep s1)
        in if delay < 0 then (Inl ValueError, s1)
           else
             let s2 = s1\<lparr>sleeps := sleeps s1 @ [delay]\<rparr>;
                 failed = \<lparr>html_url = url, html_host_url = split_host_url env url,
                           html_text = None, html_status = False\<rparr>;
                 rq = build_request s2 method url timeout;
                 s3 = s2\<lparr>requests := requests s2 @ [rq]\<rparr>
             in case on_response env (http env (length (requests s2)) rq) of
                  Some d \<Rightarrow> (Inr d, s3)
                | None \<Rightarrow>
                    if retry_times \<le> max_retry_times s3
                    then get_request_html env s3 url method (Some (delay * (3 / 2)))
                           (retry_times + 1) None None None
                    else (Inr failed, s3))"
  by pat_completeness auto
termination
  by (relation "measure (\<lambda>(env, s, url, method, ts, retry_times, h, d, t).
                   nat (max_retry_times s + 1 - retry_times))")
     (auto simp: set_header_def set_data_def split: if_splits)

text \<open>
  \<^verbatim>\<open>get_selenium_html\<close>. The driver is \<^verbatim>\<open>None\<close> until \<^verbatim>\<open>webdriver.Chrome\<close> has
  returned. The \<^verbatim>\<open>except\<close> clause quits an existing driver before the recursive call,
  and the \<^verbatim>\<open>finally\<close> clause quits it (again) after that call has returned or raised.
  The recursive call passes neither the method nor the timeout.
\<close>

definition quit :: "nat \<Rightarrow> extractor \<Rightarrow> extractor" where
  "quit driver s = s\<lparr>browser_log := browser_log s @ [Quit driver]\<rparr>"

function get_selenium_html ::
  "net \<Rightarrow> extractor \<Rightarrow> string \<Rightarrow> string \<Rightarrow> rat option \<Rightarrow> int \<Rightarrow> bool \<Rightarrow> rat option
     \<Rightarrow> (py_error + html_dict) \<times> extractor" where
  "get_selenium_html env s url method time_sleep_arg retry_times headless time_out_arg =
     (if method \<noteq> ''get'' then (Inl AssertionError, s)
      else
        let timeout = or_default time_out_arg (time_out s);
            delay = or_default time_sleep_arg (time_sleep s);
            failed = \<lparr>html_url = url, html_host_url = split_host_url env url,
                      html_text = None, html_status = False\<rparr>;
            s1 = s\<lparr>ua_draws := Suc (ua_draws s), sessions := Suc (sessions s)\<rparr>;
            driver = length (browser_log s1);
            opened = s1\<lparr>browser_log := browser_log s1 @ [Launch driver]\<rparr>;
            slept = opened\<lparr>sleeps := sleeps opened @ [delay]\<rparr>
        in case browser env (sessions s) url of
             LaunchFails \<Rightarrow>
               if retry_times \<le> max_retry_times s1
               then get_selenium_html env s1 url ''get'' (Some (delay * (3 / 2)))
                      (retry_times + 1) headless None
               else (Inr failed, s1)
           | PageFails \<Rightarrow>
               if delay < 0 then (Inl ValueError, quit driver opened)
               else if retry_times \<le> max_retry_times slept
               then apsnd (quit driver)
                      (get_selenium_html env (quit driver slept) url ''get''
                         (Some (delay * (3 / 2))) (retry_times + 1) headless None)
               else (Inr failed, quit driver slept)
           | PageCrashes \<Rightarrow>
               if delay < 0 then (Inl ValueError, quit driver opened)
               else (Inl OtherError, quit driver slept)
           | Rendered u source \<Rightarrow>
               if delay < 0 then (Inl ValueError, quit driver opened)
               else (Inr \<lparr>html_url = u, html_host_url = split_host_url env u,
                          html_text = Some source, html_status = True\<rparr>,
                     quit driver (slept\<lparr>sleeps := sleeps slept @ [delay]\<rparr>)))"
  by pat_completeness auto
termination
  by (relation "measure (\<lambda>(env, s, url, m, ts, retry_times, h, t).
                   nat (max_retry_times s + 1 - retry_times))")
     (auto simp: quit_def)

text \<open>\<^verbatim>\<open>get_html_dict\<close> chooses the strategy.\<close>

definition get_html_dict ::
  "net \<Rightarrow> extractor \<Rightarrow> string \<Rightarrow> string \<Rightarrow> string \<Rightarrow> bool \<Rightarrow> rat option \<Rightarrow> rat option
     \<Rightarrow> (py_error + html_dict) \<times> extractor" where
  "get_html_dict env s url reptile_lib method selenium_headless time_sleep_arg time_out_arg =
     (if reptile_lib \<noteq> ''requests'' \<and> reptile_lib \<noteq> ''selenium'' then (Inl AssertionError, s)
      else
        let timeout = or_default time_out_arg (time_out s);
            delay = or_default time_sleep_arg (time_sleep s)
        in if reptile_lib = ''requests''
           then get_request_html env s url method (Some delay) 1 None None (Some timeout)
           else get_selenium_html env s url method (Some delay) 1 selenium_headless (Some timeout))"

text \<open>The drivers that a sequence of events leaves open.\<close>

fun open_drivers :: "nat list \<Rightarrow> browser_event list \<Rightarrow> nat list" where
  "open_drivers ds [] = ds"
| "open_drivers ds (Launch d # es) = open_drivers (d # ds) es"
| "open_drivers ds (Quit d # es) = open_drivers (removeAll d ds) es"

section \<open>Properties of the fetcher\<close>

declare get_request_html.simps [simp del]

lemma set_keep [simp]:
  "max_retry_times (set_header env h s) = max_retry_times s"
  "max_retry_times (set_data d s) = max_retry_times s"
  "requests (set_header env h s) = requests s"
  "requests (set_data d s) = requests s"
  "sleeps (set_header env h s) = sleeps s"
  "sleeps (set_data d s) = sleeps s"
  "time_out (set_header env h s) = time_out s"
  "time_out (set_data d s) = time_out s"
  "time_sleep (set_header env h s) = time_sleep s"
  "time_sleep (set_data d s) = time_sleep s"
  by (simp_all add: set_header_def set_data_def)

lemma set_None [simp]: "set_data None s = s"
  by (simp add: set_data_def)




lemma trace_grows_aux:
  "nat (max_retry_times s + 1 - r) \<le> k \<Longrightarrow>
   \<exists>rs ds. requests (snd (get_request_html env s url m ts r h d t)) = requests s @ rs \<and>
           sleeps (snd (get_request_html env s url m ts r h d t)) = sleeps s @ ds"
proof (induction k arbitrary: s ts r h d t)
  case 0
  then have "\<not> r \<le> max_retry_times s" by simp
  then show ?case
    by (auto simp: get_request_html.simps [of env s] Let_def split: option.splits)
next
  case (Suc k)
  let ?dl = "or_default ts (time_sleep s)"
  let ?s1 = "set_data d (set_header env h s)"
  let ?s2 = "?s1\<lparr>sleeps := sleeps ?s1 @ [?dl]\<rparr>"
  let ?rq = "build_request ?s2 m url (or_default t (time_out ?s1))"
  let ?s3 = "?s2\<lparr>requests := requests ?s2 @ [?rq]\<rparr>"
  let ?rec = "get_request_html env ?s3 url m (Some (?dl * (3 / 2))) (r + 1) None None None"
  have "nat (max_retry_times ?s3 + 1 - (r + 1)) \<le> k" using Suc.prems by simp
  from Suc.IH [OF this, of "Some (?dl * (3 / 2))" None None None]
  obtain rs ds where "requests (snd ?rec) = requests ?s3 @ rs" "sleeps (snd ?rec) = sleeps ?s3 @ ds"
    by blast
  then show ?case
    by (auto simp: get_request_html.simps [of env s] Let_def split: option.splits)
qed

lemma trace_grows:
  "\<exists>rs ds. requests (snd (get_request_html env s url m ts r h d t)) = requests s @ rs \<and>
           sleeps (snd (get_request_html env s url m ts r h d t)) = sleeps s @ ds"
  using trace_grows_aux [of s r "nat (max_retry_times s + 1 - r)"] by simp

lemma first_request:
  assumes "m = ''get'' \<or> m = ''post''" and "0 \<le> or_default ts (time_sleep s)"
  shows "\<exists>rs ds. requests (snd (get_request_html env s url m ts r h d t))
     = requests s @ build_request (set_data d (set_header env h s)) m url (or_default t (time_out s)) # rs
     \<and> sleeps (snd (get_request_html env s url m ts r h d t)) = sleeps s @ or_default ts (time_sleep s) # ds"
proof -
  let ?dl = "or_default ts (time_sleep s)"
  let ?s1 = "set_data d (set_header env h s)"
  let ?s2 = "?s1\<lparr>sleeps := sleeps ?s1 @ [?dl]\<rparr>"
  let ?rq = "build_request ?s2 m url (or_default t (time_out ?s1))"
  let ?s3 = "?s2\<lparr>requests := requests ?s2 @ [?rq]\<rparr>"
  let ?rec = "get_request_html env ?s3 url m (Some (?dl * (3 / 2))) (r + 1) None None None"
  have rq: "?rq = build_request ?s1 m url (or_default t (time_out s))"
    by (simp add: build_request_def)
  obtain rs ds where "requests (snd ?rec) = requests ?s3 @ rs" "sleeps (snd ?rec) = sleeps ?s3 @ ds"
    using trace_grows by blast
  with assms rq show ?thesis
    by (auto simp: get_request_html.simps [of env s] Let_def split: option.splits)
qed

lemma second_request:
  assumes m: "m = ''get'' \<or> m = ''post''"
    and d: "0 \<le> or_default ts (time_sleep s)"
    and fail: "on_response env (http env (length (requests s))
                 (build_request (set_data dt (set_header env h s)) m url (or_default t (time_out s)))) = None"
    and r: "r \<le> max_retry_times s"
  shows "\<exists>rs ds. requests (snd (get_request_html env s url m ts r h dt t))
     = requests s @ [build_request (set_data dt (set_header env h s)) m url (or_default t (time_out s)),
                     build_request (set_header env None (set_data dt (set_header env h s))) m url (time_out s)] @ rs
     \<and> sleeps (snd (get_request_html env s url m ts r h dt t))
       = sleeps s @ [or_default ts (time_sleep s), or_default ts (time_sleep s) * (3 / 2)] @ ds"
proof -
  let ?dl = "or_default ts (time_sleep s)"
  let ?s1 = "set_data dt (set_header env h s)"
  let ?s2 = "?s1\<lparr>sleeps := sleeps ?s1 @ [?dl]\<rparr>"
  let ?rq = "build_request ?s2 m url (or_default t (time_out ?s1))"
  let ?s3 = "?s2\<lparr>requests := requests ?s2 @ [?rq]\<rparr>"
  have rq: "?rq = build_request ?s1 m url (or_default t (time_out s))"
    by (simp add: build_request_def)
  have step: "get_request_html env s url m ts r h dt t
      = get_request_html env ?s3 url m (Some (?dl * (3 / 2))) (r + 1) None None None"
    using m d fail r rq
    by (auto simp: get_request_html.simps [of env s] Let_def)
  have d': "0 \<le> or_default (Some (?dl * (3 / 2))) (time_sleep ?s3)" using d by simp
  have rq2: "build_request (set_data None (set_header env None ?s3)) m url (or_default None (time_out ?s3))
      = build_request (set_header env None ?s1) m url (time_out s)"
    by (simp add: build_request_def set_header_def)
  from first_request [OF m d', of env url "r + 1" None None None]
  obtain rs ds where "requests (snd (get_request_html env ?s3 url m (Some (?dl * (3 / 2))) (r + 1) None None None))
      = requests ?s3 @ build_request (set_header env None ?s1) m url (time_out s) # rs"
    "sleeps (snd (get_request_html env ?s3 url m (Some (?dl * (3 / 2))) (r + 1) None None None))
      = sleeps ?s3 @ (?dl * (3 / 2)) # ds"
    unfolding rq2 by auto
  then show ?thesis unfolding step using rq by simp
qed

text \<open>A server that answers every request with status 500, and a browser that never renders.\<close>

definition always_500 :: net where
  "always_500 = \<lparr>http = (\<lambda>n rq. Response 500 (rq_url rq) []),
                 browser = (\<lambda>n u. PageFails),
                 user_agent = (\<lambda>n. ''agent''),
                 scheme_netloc = (\<lambda>u. ''https://example.com'')\<rparr>"

lemma always_500_fails: "\<forall>n rq. on_response always_500 (http always_500 n rq) = None"
  by (simp add: always_500_def)




text \<open>
  Claim C10, as amended. When the first attempt fails and a retry is allowed, the retry call
  is given only the URL, the method, the delay scaled by 1.5 and the incremented retry
  count. Its timeout is the instance's \<^verbatim>\<open>time_out\<close>: a timeout given by the caller holds
  for the first attempt only. But a non-empty header or data given by the caller was stored
  in \<^verbatim>\<open>self.header\<close> or \<^verbatim>\<open>self.data\<close> by the first attempt, so the retry still sends
  them, the header with a newly drawn user agent.
\<close>

theorem retry_uses_stored_header_and_data:
  assumes "method = ''get'' \<or> method = ''post''"
    and "0 \<le> or_default time_sleep_arg (time_sleep s)"
    and "\<forall>rq. on_response env (http env (length (requests s)) rq) = None"
    and "retry_times \<le> max_retry_times s"
  shows "let s' = snd (get_request_html env s url method time_sleep_arg retry_times
                         header_arg data_arg time_out_arg);
             first = requests s' ! length (requests s);
             second = requests s' ! Suc (length (requests s))
         in rq_timeout first = or_default time_out_arg (time_out s) \<and>
            rq_timeout second = time_out s \<and>
            rq_method second = method \<and> rq_url second = url \<and>
            rq_headers second =
              (if truthy header_arg
               then AList.update ''User-Agent'' (Some (user_agent env (ua_draws s))) (the header_arg)
               else AList.update ''User-Agent'' (Some (user_agent env (Suc (ua_draws s))))
                      (AList.update ''User-Agent'' (Some (user_agent env (ua_draws s))) (header s))) \<and>
            rq_data second =
              (if method = ''get'' then None
               else Some (if truthy data_arg then the data_arg else data s)) \<and>
            sleeps s' ! Suc (length (sleeps s)) = or_default time_sleep_arg (time_sleep s) * (3 / 2)"
proof -
  have "on_response env (http env (length (requests s))
          (build_request (set_data data_arg (set_header env header_arg s)) method url
             (or_default time_out_arg (time_out s)))) = None"
    using assms(3) by simp
  from second_request [OF assms(1,2) this assms(4)]
  obtain rs ds where
    "requests (snd (get_request_html env s url method time_sleep_arg retry_times header_arg data_arg time_out_arg))
       = requests s @ [build_request (set_data data_arg (set_header env header_arg s)) method url
                         (or_default time_out_arg (time_out s)),
                       build_request (set_header env None (set_data data_arg (set_header env header_arg s)))
                         method url (time_out s)] @ rs"
    "sleeps (snd (get_request_html env s url method time_sleep_arg retry_times header_arg data_arg time_out_arg))
       = sleeps s @ [or_default time_sleep_arg (time_sleep s),
                     or_default time_sleep_arg (time_sleep s) * (3 / 2)] @ ds"
    by blast
  then show ?thesis
    by (simp add: Let_def nth_append build_request_def set_header_def set_data_def)
qed

text \<open>A server and a browser that fail once and then answer.\<close>

definition picky :: net where
  "picky = \<lparr>http = (\<lambda>n rq. if n = 0 then RequestException
                             else Response 200 (rq_url rq) ''<html></html>''),
             browser = (\<lambda>n u. if n = 0 then PageFails else Rendered u ''<html></html>''),
             user_agent = (\<lambda>n. if n = 0 then ''agent-0'' else ''agent-1''),
             scheme_netloc = (\<lambda>u. ''https://example.com'')\<rparr>"

theorem retry_uses_stored_header_and_data_witness:
  "let s' = snd (get_request_html picky (init picky None [] 1 20 3) ''https://example.com/form''
                   ''post'' None 1 (Some [(''X-Token'', Some ''abc'')]) (Some [(''q'', ''1'')]) (Some 5));
       first = requests s' ! 0;
       second = requests s' ! 1
   in rq_timeout first = 5 \<and> rq_timeout second = 20 \<and>
      rq_method second = ''post'' \<and> rq_url second = ''https://example.com/form'' \<and>
      rq_headers second = [(''X-Token'', Some ''abc''), (''User-Agent'', Some ''agent-1'')] \<and>
      rq_data second = Some [(''q'', ''1'')] \<and>
      sleeps s' ! 1 = 3 / 2"
  using retry_uses_stored_header_and_data [of "''post''" None "init picky None [] 1 20 3" picky 1
      "''https://example.com/form''" "Some [(''X-Token'', Some ''abc'')]" "Some [(''q'', ''1'')]" "Some 5"]
  by (simp add: init_def Let_def) (simp add: picky_def)

text \<open>
  The retry of a POST that was given a header and data sends that header and that data,
  not the ones the instance was built with.
\<close>

theorem retry_sends_the_callers_header_and_data:
  "let s0 = init always_500 None [] 1 20 3;
       s' = snd (get_request_html always_500 s0 ''https://example.com/form''
                   ''post'' None 1 (Some [(''X-Token'', Some ''abc'')]) (Some [(''q'', ''1'')]) (Some 5));
       second = requests s' ! 1
   in rq_data second = Some [(''q'', ''1'')] \<and> rq_data second \<noteq> Some (data s0) \<and>
      rq_headers second = [(''X-Token'', Some ''abc''), (''User-Agent'', Some ''agent'')] \<and>
      rq_headers second \<noteq> header s0"
proof -
  let ?s0 = "init always_500 None [] 1 20 3"
  have "on_response always_500 (http always_500 (length (requests ?s0))
          (build_request (set_data (Some [(''q'', ''1'')]) (set_header always_500 (Some [(''X-Token'', Some ''abc'')]) ?s0))
             ''post'' ''https://example.com/form'' (or_default (Some 5) (time_out ?s0)))) = None"
    using always_500_fails by blast
  from second_request [where ts = None and r = 1, OF _ _ this]
  obtain rs where "requests (snd (get_request_html always_500 ?s0 ''https://example.com/form''
                   ''post'' None 1 (Some [(''X-Token'', Some ''abc'')]) (Some [(''q'', ''1'')]) (Some 5)))
     = requests ?s0 @ [build_request (set_data (Some [(''q'', ''1'')]) (set_header always_500 (Some [(''X-Token'', Some ''abc'')]) ?s0))
             ''post'' ''https://example.com/form'' (or_default (Some 5) (time_out ?s0)),
          build_request (set_header always_500 None (set_data (Some [(''q'', ''1'')]) (set_header always_500 (Some [(''X-Token'', Some ''abc'')]) ?s0)))
             ''post'' ''https://example.com/form'' (time_out ?s0)] @ rs"
    by (auto simp: init_def)
  then show ?thesis
    by (simp add: Let_def init_def build_request_def set_header_def set_data_def always_500_def default_header_def)
qed

subsection \<open>The rendered strategy\<close>

declare get_selenium_html.simps [simp del]

lemma open_drivers_append:
  "open_drivers ds (es @ fs) = open_drivers (open_drivers ds es) fs"
  by (induction ds es rule: open_drivers.induct) simp_all

lemma driver_events_aux:
  "nat (max_retry_times s + 1 - r) \<le> k \<Longrightarrow>
   \<exists>es. browser_log (snd (get_selenium_html env s url m ts r hl t)) = browser_log s @ es \<and>
        open_drivers [] es = []"
proof (induction k arbitrary: s ts r t m)
  case 0
  then have "\<not> r \<le> max_retry_times s" by simp
  then show ?case
    by (auto simp: get_selenium_html.simps [of env s] Let_def quit_def split: browser_outcome.splits)
next
  case (Suc k)
  let ?dl = "or_default ts (time_sleep s)"
  let ?s1 = "s\<lparr>ua_draws := Suc (ua_draws s), sessions := Suc (sessions s)\<rparr>"
  let ?d = "length (browser_log ?s1)"
  let ?opened = "?s1\<lparr>browser_log := browser_log ?s1 @ [Launch ?d]\<rparr>"
  let ?slept = "?opened\<lparr>sleeps := sleeps ?opened @ [?dl]\<rparr>"
  let ?rec1 = "get_selenium_html env ?s1 url ''get'' (Some (?dl * (3 / 2))) (r + 1) hl None"
  let ?rec2 = "get_selenium_html env (quit ?d ?slept) url ''get'' (Some (?dl * (3 / 2))) (r + 1) hl None"
  have "nat (max_retry_times ?s1 + 1 - (r + 1)) \<le> k" using Suc.prems by simp
  from Suc.IH [OF this]
  obtain es1 where es1: "browser_log (snd ?rec1) = browser_log ?s1 @ es1" "open_drivers [] es1 = []"
    by blast
  have "nat (max_retry_times (quit ?d ?slept) + 1 - (r + 1)) \<le> k"
    using Suc.prems by (simp add: quit_def)
  from Suc.IH [OF this]
  obtain es2 where es2: "browser_log (snd ?rec2) = browser_log (quit ?d ?slept) @ es2"
    "open_drivers [] es2 = []"
    by blast
  have log2: "browser_log (quit ?d (snd ?rec2)) = browser_log s @ ([Launch ?d, Quit ?d] @ es2 @ [Quit ?d])"
    using es2(1) by (simp add: quit_def)
  have open2: "open_drivers [] ([Launch ?d, Quit ?d] @ es2 @ [Quit ?d]) = []"
    using es2(2) by (simp add: open_drivers_append)
  show ?case
  proof (cases "browser env (sessions s) url")
    case LaunchFails
    with es1 show ?thesis
      by (auto simp: get_selenium_html.simps [of env s] Let_def)
  next
    case PageFails
    show ?thesis
    proof (cases "m = ''get'' \<and> \<not> ?dl < 0 \<and> r \<le> max_retry_times s")
      case True
      with PageFails have "get_selenium_html env s url m ts r hl t = apsnd (quit ?d) ?rec2"
        by (simp add: get_selenium_html.simps [of env s] Let_def)
      with log2 open2 show ?thesis by (metis snd_apsnd)
    next
      case False
      with PageFails show ?thesis
        by (auto simp: get_selenium_html.simps [of env s] Let_def quit_def)
    qed
  next
    case PageCrashes
    then show ?thesis
      by (auto simp: get_selenium_html.simps [of env s] Let_def quit_def)
  next
    case (Rendered u src)
    then show ?thesis
      by (auto simp: get_selenium_html.simps [of env s] Let_def quit_def)
  qed
qed

lemma driver_events:
  "\<exists>es. browser_log (snd (get_selenium_html env s url m ts r hl t)) = browser_log s @ es \<and>
        open_drivers [] es = []"
  using driver_events_aux [of s r "nat (max_retry_times s + 1 - r)"] by simp

lemma driver_launched:
  assumes "browser env (sessions s) url \<noteq> LaunchFails"
  shows "\<exists>es. browser_log (snd (get_selenium_html env s url ''get'' ts r hl t))
           = browser_log s @ Launch (length (browser_log s)) # es"
proof -
  let ?dl = "or_default ts (time_sleep s)"
  let ?s1 = "s\<lparr>ua_draws := Suc (ua_draws s), sessions := Suc (sessions s)\<rparr>"
  let ?d = "length (browser_log ?s1)"
  let ?opened = "?s1\<lparr>browser_log := browser_log ?s1 @ [Launch ?d]\<rparr>"
  let ?slept = "?opened\<lparr>sleeps := sleeps ?opened @ [?dl]\<rparr>"
  let ?rec2 = "get_selenium_html env (quit ?d ?slept) url ''get'' (Some (?dl * (3 / 2))) (r + 1) hl None"
  obtain es2 where es2: "browser_log (snd ?rec2) = browser_log (quit ?d ?slept) @ es2"
    using driver_events by blast
  show ?thesis
  proof (cases "browser env (sessions s) url")
    case LaunchFails
    with assms show ?thesis by simp
  next
    case PageFails
    show ?thesis
    proof (cases "\<not> ?dl < 0 \<and> r \<le> max_retry_times s")
      case True
      with PageFails have "get_selenium_html env s url ''get'' ts r hl t = apsnd (quit ?d) ?rec2"
        by (simp add: get_selenium_html.simps [of env s] Let_def)
      with es2 show ?thesis by (simp add: quit_def)
    next
      case False
      with PageFails show ?thesis
        by (auto simp: get_selenium_html.simps [of env s] Let_def quit_def)
    qed
  next
    case PageCrashes
    then show ?thesis
      by (auto simp: get_selenium_html.simps [of env s] Let_def quit_def)
  next
    case (Rendered u src)
    then show ?thesis
      by (auto simp: get_selenium_html.simps [of env s] Let_def quit_def)
  qed
qed

text \<open>
  Claim C9. Whatever \<^verbatim>\<open>get_selenium_html\<close> returns or raises, the events it adds to the
  log leave no driver open: every driver it launched has been quit, on the success path,
  on the retry path, when the retries are exhausted and when an uncaught exception
  passes through the \<^verbatim>\<open>finally\<close> clause. Whenever the browser starts, a driver is
  launched, so the statement is about real drivers.
\<close>

theorem driver_always_released:
  "let log' = browser_log (snd (get_selenium_html env s url method time_sleep_arg retry_times
                                  headless time_out_arg));
       new = drop (length (browser_log s)) log'
   in take (length (browser_log s)) log' = browser_log s \<and>
      open_drivers [] new = [] \<and>
      (method = ''get'' \<and> browser env (sessions s) url \<noteq> LaunchFails \<longrightarrow>
         hd new = Launch (length (browser_log s)))"
proof -
  let ?log' = "browser_log (snd (get_selenium_html env s url method time_sleep_arg retry_times
                                  headless time_out_arg))"
  obtain es where es: "?log' = browser_log s @ es" "open_drivers [] es = []"
    using driver_events by blast
  have "hd es = Launch (length (browser_log s))"
    if "method = ''get''" "browser env (sessions s) url \<noteq> LaunchFails"
  proof -
    from driver_launched [OF that(2), of time_sleep_arg retry_times headless time_out_arg] that(1) es(1)
    show ?thesis by auto
  qed
  with es show ?thesis by (simp add: Let_def)
qed

theorem driver_always_released_witness:
  "browser_log (snd (get_selenium_html picky (init picky None [] 1 20 3)
      ''https://example.com/app'' ''get'' None 1 True None))
     = [Launch 0, Quit 0, Launch 2, Quit 2, Quit 0] \<and>
   open_drivers [] [Launch 0, Quit 0, Launch 2, Quit 2, Quit 0] = []"
  using driver_always_released [of picky "init picky None [] 1 20 3" "''https://example.com/app''"
      "''get''" None 1 True None]
  by (simp add: get_selenium_html.simps init_def picky_def quit_def Let_def)

section \<open>WebCrawler: strings\<close>

text \<open>
  Python strings are lists of characters; a character stands for a code point below 256.
  \<^verbatim>\<open>str.isspace\<close> holds in that range for the code points 9 to 13, 28 to 32, 133
  and 160.
\<close>

definition is_space :: "char \<Rightarrow> bool" where
  "is_space c =
     (c \<in> {CHR 0x09, CHR 0x0A, CHR 0x0B, CHR 0x0C, CHR 0x0D, CHR 0x1C, CHR 0x1D, CHR 0x1E,
            CHR 0x1F, CHR 0x20, CHR 0x85, CHR 0xA0})"

definition newline :: char where
  "newline = CHR 0x0A"

definition lstrip :: "string \<Rightarrow> string" where
  "lstrip s = dropWhile is_space s"

definition strip :: "string \<Rightarrow> string" where
  "strip s = rev (dropWhile is_space (rev (dropWhile is_space s)))"

text \<open>\<^verbatim>\<open>s.split(c)\<close> for a separator of one character, and \<^verbatim>\<open>sep.join(parts)\<close>.\<close>

fun split_on :: "char \<Rightarrow> string \<Rightarrow> string list" where
  "split_on c [] = [[]]"
| "split_on c (x # xs) =
     (if x = c then [] # split_on c xs
      else case split_on c xs of
             [] \<Rightarrow> [[x]]
           | part # parts \<Rightarrow> (x # part) # parts)"

fun join :: "string \<Rightarrow> string list \<Rightarrow> string" where
  "join sep [] = []"
| "join sep [part] = part"
| "join sep (part # parts) = part @ sep @ join sep parts"

text \<open>\<^verbatim>\<open>s.split(sep)\<close> for a separator of several characters: occurrences are cut from the left.\<close>

function split_str :: "string \<Rightarrow> string \<Rightarrow> string list" where
  "split_str sep [] = [[]]"
| "split_str sep (x # xs) =
     (if sep \<noteq> [] \<and> prefix sep (x # xs)
      then [] # split_str sep (drop (length sep) (x # xs))
      else case split_str sep xs of
             [] \<Rightarrow> [[x]]
           | part # parts \<Rightarrow> (x # part) # parts)"
  by pat_completeness auto
termination
  by (relation "measure (\<lambda>(sep, s). length s)") (auto simp: neq_Nil_conv)

text \<open>\<^verbatim>\<open>sub in s\<close>.\<close>

fun contains :: "string \<Rightarrow> string \<Rightarrow> bool" where
  "contains sub [] = (sub = [])"
| "contains sub (x # xs) = (prefix sub (x # xs) \<or> contains sub xs)"

text \<open>\<^verbatim>\<open>str.lower\<close> on code points below 256: the letters A to Z and the accented capitals.\<close>

definition upper_chars :: string where
  "upper_chars = ''ABCDEFGHIJKLMNOPQRSTUVWXYZ'' @
     [CHR 0xC0, CHR 0xC1, CHR 0xC2, CHR 0xC3, CHR 0xC4, CHR 0xC5, CHR 0xC6, CHR 0xC7,
      CHR 0xC8, CHR 0xC9, CHR 0xCA, CHR 0xCB, CHR 0xCC, CHR 0xCD, CHR 0xCE, CHR 0xCF,
      CHR 0xD0, CHR 0xD1, CHR 0xD2, CHR 0xD3, CHR 0xD4, CHR 0xD5, CHR 0xD6, CHR 0xD8,
      CHR 0xD9, CHR 0xDA, CHR 0xDB, CHR 0xDC, CHR 0xDD, CHR 0xDE]"

definition lower_chars :: string where
  "lower_chars = ''abcdefghijklmnopqrstuvwxyz'' @
     [CHR 0xE0, CHR 0xE1, CHR 0xE2, CHR 0xE3, CHR 0xE4, CHR 0xE5, CHR 0xE6, CHR 0xE7,
      CHR 0xE8, CHR 0xE9, CHR 0xEA, CHR 0xEB, CHR 0xEC, CHR 0xED, CHR 0xEE, CHR 0xEF,
      CHR 0xF0, CHR 0xF1, CHR 0xF2, CHR 0xF3, CHR 0xF4, CHR 0xF5, CHR 0xF6, CHR 0xF8,
      CHR 0xF9, CHR 0xFA, CHR 0xFB, CHR 0xFC, CHR 0xFD, CHR 0xFE]"

definition lower_char :: "char \<Rightarrow> char" where
  "lower_char c = (case map_of (zip upper_chars lower_chars) c of None \<Rightarrow> c | Some l \<Rightarrow> l)"

definition lower :: "string \<Rightarrow> string" where
  "lower s = map lower_char s"

text \<open>\<^verbatim>\<open>str(n)\<close> for a natural number.\<close>

fun str_nat :: "nat \<Rightarrow> string" where
  "str_nat n =
     (if n < 10 then [''0123456789'' ! n]
      else str_nat (n div 10) @ [''0123456789'' ! (n mod 10)])"

declare str_nat.simps [simp del]

section \<open>WebCrawler: the parsed page\<close>

text \<open>
  A node of the tree that BeautifulSoup builds: a string, or a tag with its name, its
  \<^verbatim>\<open>class\<close> attribute (\<^verbatim>\<open>None\<close> when absent, else the list of tokens) and its children.
\<close>

datatype node =
  Text string
| Tag string "string list option" "node list"

fun tag_name :: "node \<Rightarrow> string" where
  "tag_name (Tag name cls kids) = name"
| "tag_name (Text t) = []"

fun tag_class :: "node \<Rightarrow> string list option" where
  "tag_class (Tag name cls kids) = cls"
| "tag_class (Text t) = None"

fun contents :: "node \<Rightarrow> node list" where
  "contents (Tag name cls kids) = kids"
| "contents (Text t) = []"

text \<open>The strings below a node, in document order; \<^verbatim>\<open>get_text(sep)\<close> joins them.\<close>

fun strings :: "node \<Rightarrow> string list" where
  "strings (Text t) = [t]"
| "strings (Tag name cls kids) = concat (map strings kids)"

definition get_text :: "string \<Rightarrow> node \<Rightarrow> string" where
  "get_text sep n = join sep (strings n)"

text \<open>\<^verbatim>\<open>find(name)\<close>: the first tag of that name below a node, in document order.\<close>

fun find_in :: "string \<Rightarrow> node list \<Rightarrow> node option" where
  "find_in name [] = None"
| "find_in name (Text t # ns) = find_in name ns"
| "find_in name (Tag n cls kids # ns) =
     (if n = name then Some (Tag n cls kids)
      else case find_in name kids of
             Some hit \<Rightarrow> Some hit
           | None \<Rightarrow> find_in name ns)"

fun find_tag :: "string \<Rightarrow> node \<Rightarrow> node option" where
  "find_tag name (Tag n cls kids) = find_in name kids"
| "find_tag name (Text t) = None"

text \<open>
  A code element as \<^verbatim>\<open>find_all\<close> hands it over: the node, the \<^verbatim>\<open>class\<close> attribute of
  its parent (\<^verbatim>\<open>None\<close> when there is no parent or no such attribute), and the heading
  that the search around the element finds (\<^verbatim>\<open>None\<close> when it finds none).
\<close>

record element =
  elem :: node
  parent_class :: "string list option"
  nearby_heading :: "string option"

text \<open>
  The regular expressions of the content cascade, by what they look for; the regular
  expression engine decides each of them on a text.
\<close>

datatype pattern =
  PyDef | PyImport | PyFromImport
| JsDeclaration | JsFunction | JsArrow
| HtmlTagPair | HtmlKnownTag
| CssRule | CssMedia
| SqlKeyword
| AccessModifier | JavaPrintln | CsharpWriteLine | CppStd
| Shebang | ShellPrompt

text \<open>
  The library functions the crawler calls: \<^verbatim>\<open>html.unescape\<close>, \<^verbatim>\<open>re.search\<close> (whether
  there is a match), the built-in \<^verbatim>\<open>hash\<close> of a string, the two \<^verbatim>\<open>re.sub\<close> and the
  \<^verbatim>\<open>strip\<close> that turn a heading into a file name, \<^verbatim>\<open>urljoin\<close>, which raises
  \<^verbatim>\<open>ValueError\<close> on a malformed link (\<^verbatim>\<open>None\<close> here), and of \<^verbatim>\<open>urlparse\<close> the
  \<^verbatim>\<open>scheme://netloc\<close> prefix, the \<^verbatim>\<open>netloc\<close> and the path of a URL. The file system
  says whether \<^verbatim>\<open>os.makedirs\<close> can make a directory and whether \<^verbatim>\<open>open\<close> can open a
  file for writing; both raise \<^verbatim>\<open>OSError\<close> when they cannot.
\<close>

record lib =
  unescape :: "string \<Rightarrow> string"
  re_search :: "pattern \<Rightarrow> string \<Rightarrow> bool"
  hash :: "string \<Rightarrow> int"
  safe_name :: "string \<Rightarrow> string"
  urljoin :: "string \<Rightarrow> string \<Rightarrow> string option"
  url_prefix :: "string \<Rightarrow> string"
  url_netloc :: "string \<Rightarrow> string"
  url_path :: "string \<Rightarrow> string"
  makedirs_ok :: "string \<Rightarrow> bool"
  open_ok :: "string \<Rightarrow> bool"

subsection \<open>Formatting of a code element\<close>

text \<open>A line is blank when \<^verbatim>\<open>line.strip()\<close> is empty; its indent is what \<^verbatim>\<open>lstrip\<close> removes.\<close>

definition blank :: "string \<Rightarrow> bool" where
  "blank line = (strip line = [])"

definition indent :: "string \<Rightarrow> nat" where
  "indent line = length line - length (lstrip line)"

text \<open>The loop that finds the minimum indent; \<^verbatim>\<open>None\<close> stands for infinity.\<close>

fun min_indent :: "nat option \<Rightarrow> string list \<Rightarrow> nat option" where
  "min_indent acc [] = acc"
| "min_indent acc (line # lines) =
     (if \<not> blank line
      then min_indent (Some (case acc of None \<Rightarrow> indent line | Some m \<Rightarrow> min m (indent line))) lines
      else min_indent acc lines)"

definition fix_line :: "nat \<Rightarrow> string \<Rightarrow> string" where
  "fix_line m line = (if \<not> blank line then drop m line else line)"

text \<open>
  \<^verbatim>\<open>_preserve_code_formatting\<close>, which \<^verbatim>\<open>WebCrawler\<close> and \<^verbatim>\<open>Html2Text\<close> define alike.
\<close>

definition preserve_code_formatting :: "lib \<Rightarrow> node \<Rightarrow> string" where
  "preserve_code_formatting l element =
     (if tag_name element = ''pre'' then
        let content = unescape l (case find_tag ''code'' element of
                                    Some code_element \<Rightarrow> get_text [newline] code_element
                                  | None \<Rightarrow> get_text [newline] element);
            lines = split_on newline content
        in if length lines > 1 then
             (case min_indent None lines of
                Some m \<Rightarrow> join [newline] (map (fix_line m) lines)
              | None \<Rightarrow> content)
           else content
      else if tag_name element = ''code'' then unescape l (get_text [newline] element)
      else unescape l (concat (map (\<lambda>child. case child of
                                       Text t \<Rightarrow> t
                                     | Tag name cls kids \<Rightarrow>
                                         if name = ''br'' then [newline] else get_text [] child)
                                 (contents element))))"

subsection \<open>Language detection\<close>

definition known_languages :: "string list" where
  "known_languages = [''python'', ''javascript'', ''js'', ''java'', ''cpp'', ''csharp'', ''ruby'',
                      ''go'', ''php'', ''html'', ''css'', ''sql'', ''bash'', ''shell'']"

text \<open>
  What one class token yields: the rule of the \<^verbatim>\<open>language-\<close> prefix, then the rule of
  \<^verbatim>\<open>language-\<close> inside the token, then the first known language that the lowered token
  contains; \<^verbatim>\<open>None\<close> when the loop goes on to the next token. The first word of a
  string of white space does not exist: \<^verbatim>\<open>[0]\<close> raises.
\<close>

definition first_word :: "string \<Rightarrow> py_error + string" where
  "first_word s =
     (case dropWhile is_space s of
        [] \<Rightarrow> Inl IndexError
      | c # cs \<Rightarrow> Inr (takeWhile (\<lambda>c. \<not> is_space c) (c # cs)))"

definition class_rule :: "string \<Rightarrow> (py_error + string) option" where
  "class_rule cls =
     (if prefix ''language-'' cls then
        (case split_on (CHR ''-'') cls of
           first # second # others \<Rightarrow> Some (Inr second)
         | parts \<Rightarrow> Some (Inl IndexError))
      else
        case (if contains ''language-'' cls
              then (case split_str ''language-'' cls of
                      first # second # others \<Rightarrow>
                        if second \<noteq> [] then Some (first_word second) else None
                    | parts \<Rightarrow> None)
              else None) of
          Some found \<Rightarrow> Some found
        | None \<Rightarrow>
            (case List.find (\<lambda>lang. contains lang (lower cls)) known_languages of
               Some lang \<Rightarrow> Some (Inr lang)
             | None \<Rightarrow> None))"

fun scan_classes :: "string list \<Rightarrow> (py_error + string) option" where
  "scan_classes [] = None"
| "scan_classes (cls # rest) =
     (case class_rule cls of
        Some found \<Rightarrow> Some found
      | None \<Rightarrow> scan_classes rest)"

text \<open>The cascade over the text of the element, in the order of the source.\<close>

definition content_language :: "lib \<Rightarrow> string \<Rightarrow> string" where
  "content_language l code_text =
     (if re_search l PyDef code_text \<or> re_search l PyImport code_text
         \<or> re_search l PyFromImport code_text then ''python''
      else if re_search l JsDeclaration code_text \<or> re_search l JsFunction code_text
         \<or> re_search l JsArrow code_text then ''javascript''
      else if re_search l HtmlTagPair code_text \<or> re_search l HtmlKnownTag code_text then ''html''
      else if re_search l CssRule code_text \<or> re_search l CssMedia code_text then ''css''
      else if re_search l SqlKeyword code_text then ''sql''
      else if re_search l AccessModifier code_text then
        (if re_search l JavaPrintln code_text then ''java''
         else if re_search l CsharpWriteLine code_text then ''csharp''
         else if re_search l CppStd code_text then ''cpp''
         else ''java'')
      else if re_search l Shebang code_text \<or> re_search l ShellPrompt code_text then ''bash''
      else ''text'')"

text \<open>
  \<^verbatim>\<open>_detect_language\<close>, which \<^verbatim>\<open>WebCrawler\<close> and \<^verbatim>\<open>Html2Text\<close> define alike: the
  class tokens of the element, then those of its parent, then the content. An attribute
  that is absent or empty is skipped.
\<close>

definition class_tokens :: "string list option \<Rightarrow> string list" where
  "class_tokens attr = (case attr of None \<Rightarrow> [] | Some tokens \<Rightarrow> tokens)"

definition detect_language :: "lib \<Rightarrow> element \<Rightarrow> py_error + string" where
  "detect_language l element =
     (case scan_classes (class_tokens (tag_class (elem element))) of
        Some found \<Rightarrow> found
      | None \<Rightarrow>
          (case scan_classes (class_tokens (parent_class element)) of
             Some found \<Rightarrow> found
           | None \<Rightarrow> Inr (content_language l (get_text [] (elem element)))))"

subsection \<open>Code blocks of a page\<close>

text \<open>
  \<^verbatim>\<open>os.path.join\<close> of two components, the files of the code directory as a list of paths
  with their contents, and the first path segment of a URL, which names the subfolder.
\<close>

definition path_join :: "string \<Rightarrow> string \<Rightarrow> string" where
  "path_join a b =
     (if prefix ''/'' b then b
      else if a = [] \<or> last a = CHR ''/'' then a @ b
      else a @ ''/'' @ b)"

definition strip_slashes :: "string \<Rightarrow> string" where
  "strip_slashes s =
     rev (dropWhile (\<lambda>c. c = CHR ''/'') (rev (dropWhile (\<lambda>c. c = CHR ''/'') s)))"

definition subfolder_of :: "lib \<Rightarrow> string \<Rightarrow> string" where
  "subfolder_of l url =
     (let path = strip_slashes (url_path l url)
      in if path \<noteq> [] then (case split_on (CHR ''/'') path of [] \<Rightarrow> ''main'' | part # parts \<Rightarrow> part)
         else ''main'')"

record code_block =
  block_url :: string
  block_file :: string
  block_heading :: string
  block_language :: string

text \<open>
  The state of the loop of \<^verbatim>\<open>extract_code_blocks\<close>: the hashes seen on this page (a set
  that every call starts empty), the metadata collected, and the files on disk.
\<close>

record extraction =
  processed_content :: "int set"
  code_blocks :: "code_block list"
  written :: "(string \<times> string) list"

definition numbered :: "string \<Rightarrow> nat \<Rightarrow> string" where
  "numbered safe_heading count = safe_heading @ ''_'' @ str_nat count @ ''.md''"

text \<open>
  The loop that looks for a file name not yet in use. It ends because the candidate names
  differ from one another and the directory holds finitely many files.
\<close>

lemma digit_inj:
  "a < 10 \<Longrightarrow> b < 10 \<Longrightarrow> ''0123456789'' ! a = ''0123456789'' ! b \<Longrightarrow> a = b"
proof -
  have "distinct ''0123456789''" by simp
  moreover have "length ''0123456789'' = 10" by simp
  ultimately show "a < 10 \<Longrightarrow> b < 10 \<Longrightarrow> ''0123456789'' ! a = ''0123456789'' ! b \<Longrightarrow> a = b"
    by (metis nth_eq_iff_index_eq)
qed

lemma str_nat_not_empty: "str_nat n \<noteq> []"
  by (subst str_nat.simps) simp

lemma str_nat_inj: "str_nat a = str_nat b \<Longrightarrow> a = b"
proof (induction a arbitrary: b rule: str_nat.induct)
  case (1 a)
  have sa: "str_nat a = (if a < 10 then [''0123456789'' ! a]
                         else str_nat (a div 10) @ [''0123456789'' ! (a mod 10)])"
    by (rule str_nat.simps)
  have sb: "str_nat b = (if b < 10 then [''0123456789'' ! b]
                         else str_nat (b div 10) @ [''0123456789'' ! (b mod 10)])"
    by (rule str_nat.simps)
  show ?case
  proof (cases "a < 10")
    case small_a: True
    show ?thesis
    proof (cases "b < 10")
      case True
      with small_a "1.prems" sa sb show ?thesis by (simp add: digit_inj)
    next
      case False
      with small_a "1.prems" sa sb
      have "[''0123456789'' ! a] = str_nat (b div 10) @ [''0123456789'' ! (b mod 10)]" by simp
      then show ?thesis using str_nat_not_empty [of "b div 10"] by simp
    qed
  next
    case big_a: False
    show ?thesis
    proof (cases "b < 10")
      case True
      with big_a "1.prems" sa sb
      have "str_nat (a div 10) @ [''0123456789'' ! (a mod 10)] = [''0123456789'' ! b]" by simp
      then show ?thesis using str_nat_not_empty [of "a div 10"] by simp
    next
      case False
      with big_a "1.prems" sa sb
      have "str_nat (a div 10) @ [''0123456789'' ! (a mod 10)]
          = str_nat (b div 10) @ [''0123456789'' ! (b mod 10)]" by simp
      then have eq: "str_nat (a div 10) = str_nat (b div 10)"
        "''0123456789'' ! (a mod 10) = ''0123456789'' ! (b mod 10)"
        by simp_all
      from "1.IH" [OF big_a eq(1)] have "a div 10 = b div 10" .
      moreover from eq(2) have "a mod 10 = b mod 10" by (intro digit_inj) simp_all
      ultimately show ?thesis by (metis div_mult_mod_eq)
    qed
  qed
qed

lemma candidate_inj:
  "path_join save_dir (numbered safe_heading a) = path_join save_dir (numbered safe_heading b) \<Longrightarrow> a = b"
proof -
  assume eq: "path_join save_dir (numbered safe_heading a) = path_join save_dir (numbered safe_heading b)"
  have "prefix ''/'' (numbered safe_heading a) \<longleftrightarrow> prefix ''/'' (numbered safe_heading b)"
    by (cases safe_heading) (simp_all add: numbered_def)
  with eq have "numbered safe_heading a = numbered safe_heading b"
    by (auto simp: path_join_def split: if_splits)
  then have "str_nat a = str_nat b" by (simp add: numbered_def)
  then show "a = b" by (rule str_nat_inj)
qed

function find_filename :: "string list \<Rightarrow> string \<Rightarrow> string \<Rightarrow> nat \<Rightarrow> string \<Rightarrow> string" where
  "find_filename existing save_dir safe_heading count filename =
     (if path_join save_dir filename \<in> set existing
      then find_filename existing save_dir safe_heading (Suc count) (numbered safe_heading count)
      else filename)"
  by pat_completeness auto
termination
proof (relation "measure (\<lambda>(existing, save_dir, safe_heading, count, filename).
          card {n. count \<le> n \<and> path_join save_dir (numbered safe_heading n) \<in> set existing}
          + (if path_join save_dir filename \<in> set existing then 1 else 0))", goal_cases)
  case 1
  show ?case by simp
next
  case (2 existing save_dir safe_heading count filename)
  let ?taken = "\<lambda>n. path_join save_dir (numbered safe_heading n) \<in> set existing"
  have "inj (\<lambda>n. path_join save_dir (numbered safe_heading n))"
    by (rule injI) (rule candidate_inj)
  then have "finite ((\<lambda>n. path_join save_dir (numbered safe_heading n)) -` set existing)"
    by (intro finite_vimageI) simp_all
  then have fin: "finite {n. Suc count \<le> n \<and> ?taken n}"
    by (rule rev_finite_subset) auto
  have split: "{n. count \<le> n \<and> ?taken n}
      = (if ?taken count then insert count {n. Suc count \<le> n \<and> ?taken n}
         else {n. Suc count \<le> n \<and> ?taken n})"
    by (auto simp: Suc_le_eq le_less)
  have "card {n. count \<le> n \<and> ?taken n}
      = (if ?taken count then Suc (card {n. Suc count \<le> n \<and> ?taken n})
         else card {n. Suc count \<le> n \<and> ?taken n})"
    by (subst split) (simp add: fin)
  with 2 show ?case by simp
qed

declare find_filename.simps [simp del]

text \<open>
  \<^verbatim>\<open>extract_code_blocks\<close>: the loop over the code elements of one page, with the index
  that \<^verbatim>\<open>enumerate\<close> gives. An exception of \<^verbatim>\<open>_detect_language\<close>, of
  \<^verbatim>\<open>os.makedirs\<close> or of \<^verbatim>\<open>open\<close> ends the loop; the files written before it stay.
\<close>

definition heading_of :: "element \<Rightarrow> string" where
  "heading_of element =
     (case nearby_heading element of
        None \<Rightarrow> ''Code Example''
      | Some h \<Rightarrow> if h = [] then ''Code Example'' else h)"

definition safe_heading_of :: "lib \<Rightarrow> nat \<Rightarrow> string \<Rightarrow> string" where
  "safe_heading_of l i heading =
     (let safe_heading = safe_name l heading
      in if safe_heading = [] then ''code_example_'' @ str_nat (i + 1) else safe_heading)"

definition file_text :: "string \<Rightarrow> string \<Rightarrow> string \<Rightarrow> string" where
  "file_text url language code_text =
     url @ [newline, newline] @ ''```'' @ language @ [newline] @ code_text
       @ (if code_text \<noteq> [] \<and> last code_text = newline then [] else [newline])
       @ ''```'' @ [newline]"

fun extract_loop ::
  "lib \<Rightarrow> string \<Rightarrow> string \<Rightarrow> nat \<Rightarrow> element list \<Rightarrow> extraction \<Rightarrow> py_error option \<times> extraction" where
  "extract_loop l url code_dir i [] st = (None, st)"
| "extract_loop l url code_dir i (element # rest) st =
     (let code_text = preserve_code_formatting l (elem element)
      in if code_text = [] \<or> length (strip code_text) < 15
         then extract_loop l url code_dir (Suc i) rest st
         else
           let content_hash = hash l code_text
           in if content_hash \<in> processed_content st
              then extract_loop l url code_dir (Suc i) rest st
              else
                case detect_language l element of
                  Inl err \<Rightarrow>
                    (Some err, st\<lparr>processed_content := insert content_hash (processed_content st)\<rparr>)
                | Inr language \<Rightarrow>
                    let heading = heading_of element;
                        safe_heading = safe_heading_of l i heading;
                        save_dir = path_join code_dir (subfolder_of l url);
                        filename = find_filename (map fst (written st)) save_dir safe_heading 1
                                     (safe_heading @ ''.md'');
                        file_path = path_join save_dir filename
                    in if \<not> makedirs_ok l save_dir \<or> \<not> open_ok l file_path
                       then (Some OSError,
                             st\<lparr>processed_content := insert content_hash (processed_content st)\<rparr>)
                       else extract_loop l url code_dir (Suc i) rest
                         (st\<lparr>processed_content := insert content_hash (processed_content st),
                             code_blocks := code_blocks st
                               @ [\<lparr>block_url = url, block_file = file_path,
                                   block_heading = heading, block_language = language\<rparr>],
                             written := written st
                               @ [(file_path, file_text url language code_text)]\<rparr>))"

definition extract_code_blocks ::
  "lib \<Rightarrow> element list \<Rightarrow> string \<Rightarrow> string \<Rightarrow> (string \<times> string) list
     \<Rightarrow> (py_error + code_block list) \<times> (string \<times> string) list" where
  "extract_code_blocks l code_elements url code_dir files_before =
     (case extract_loop l url code_dir 0 code_elements
             \<lparr>processed_content = {}, code_blocks = [], written = files_before\<rparr> of
        (None, st) \<Rightarrow> (Inr (code_blocks st), written st)
      | (Some err, st) \<Rightarrow> (Inl err, written st))"

section \<open>WebCrawler: the crawl\<close>

text \<open>
  What \<^verbatim>\<open>requests.get\<close> and the parser give for a URL: the status code, the body, the
  \<^verbatim>\<open>href\<close> values of the links in document order and the code elements that
  \<^verbatim>\<open>find_all\<close> selects; or an exception.
\<close>

record page =
  status_code :: int
  body :: string
  hrefs :: "string list"
  code_elements :: "element list"

datatype fetched = Fetched page | FetchError

record html_data =
  data_url :: string
  data_text :: string
  data_status :: bool
  data_host_url :: string

text \<open>
  The state of a crawl: the local set \<^verbatim>\<open>processed_urls\<close>, the queue of URLs with their
  depths, the lines of the HTML file, \<^verbatim>\<open>self.code_data\<close> and the files of the code
  directory.
\<close>

record crawler =
  processed_urls :: "string set"
  url_queue :: "(string \<times> int) list"
  html_file :: "html_data list"
  code_data :: "code_block list"
  files :: "(string \<times> string) list"

text \<open>
  The loop over the links of a page: each link that passes the checks is queued. A link
  that \<^verbatim>\<open>urljoin\<close> refuses ends the loop with its exception; the links queued before it
  stay in the queue.
\<close>

fun queue_links ::
  "lib \<Rightarrow> string \<Rightarrow> string \<Rightarrow> int \<Rightarrow> string list \<Rightarrow> crawler \<Rightarrow> py_error option \<times> crawler" where
  "queue_links l domain_prefix url depth [] s = (None, s)"
| "queue_links l domain_prefix url depth (href # links) s =
     (if prefix ''#'' href \<or> prefix ''javascript:'' href \<or> prefix ''mailto:'' href
      then queue_links l domain_prefix url depth links s
      else
        case urljoin l url href of
          None \<Rightarrow> (Some ValueError, s)
        | Some absolute_url \<Rightarrow>
            let next_url = (case split_on (CHR ''#'') absolute_url of
                              [] \<Rightarrow> []
                            | part # parts \<Rightarrow> part)
            in if prefix domain_prefix next_url \<and> next_url \<notin> processed_urls s
               then queue_links l domain_prefix url depth links
                      (s\<lparr>url_queue := url_queue s @ [(next_url, depth + 1)]\<rparr>)
               else queue_links l domain_prefix url depth links s)"

text \<open>
  \<^verbatim>\<open>process_url\<close>, the task of a worker. Whatever is raised inside is caught and
  the task returns \<^verbatim>\<open>None\<close>: an exception of the request, of the \<^verbatim>\<open>open\<close> of the HTML
  file, of the extraction of the code blocks, or of \<^verbatim>\<open>urljoin\<close> in the loop over the
  links. What was written and queued before the exception stays.
\<close>

definition process_url ::
  "lib \<Rightarrow> (string \<Rightarrow> fetched) \<Rightarrow> string \<Rightarrow> string \<Rightarrow> string \<Rightarrow> int \<Rightarrow> crawler \<Rightarrow> string \<Rightarrow> int
     \<Rightarrow> html_data option \<times> crawler" where
  "process_url l web domain_prefix html_dir code_dir max_depth s url depth =
     (if url \<in> processed_urls s then (None, s)
      else
        let s1 = s\<lparr>processed_urls := insert url (processed_urls s)\<rparr>
        in case web url of
             FetchError \<Rightarrow> (None, s1)
           | Fetched response \<Rightarrow>
               if status_code response \<noteq> 200 then (None, s1)
               else if \<not> open_ok l html_dir then (None, s1)
               else
                 let html_data = \<lparr>data_url = url, data_text = body response,
                                  data_status = True, data_host_url = domain_prefix\<rparr>;
                     s2 = s1\<lparr>html_file := html_file s1 @ [html_data]\<rparr>
                 in case extract_code_blocks l (code_elements response) url code_dir (files s2) of
                      (Inl err, files_after) \<Rightarrow> (None, s2\<lparr>files := files_after\<rparr>)
                    | (Inr blocks, files_after) \<Rightarrow>
                        let s3 = s2\<lparr>files := files_after, code_data := code_data s2 @ blocks\<rparr>
                        in if depth < max_depth
                           then (case queue_links l domain_prefix url depth (hrefs response) s3 of
                                   (None, s4) \<Rightarrow> (Some html_data, s4)
                                 | (Some err, s4) \<Rightarrow> (None, s4))
                           else (Some html_data, s3))"

text \<open>
  \<^verbatim>\<open>crawl\<close>. The directories are made and the HTML file is created; an exception there
  leaves \<^verbatim>\<open>crawl\<close>. The start URL is queued with depth 1 and processed at once. Then
  the loop takes URLs from the queue and hands those not yet processed to the workers.
  Here every task runs to its end before the next URL is taken, and the fuel is the number
  of URLs the deadline lets the loop take.
\<close>

fun run_queue ::
  "lib \<Rightarrow> (string \<Rightarrow> fetched) \<Rightarrow> string \<Rightarrow> string \<Rightarrow> string \<Rightarrow> int \<Rightarrow> nat \<Rightarrow> crawler \<Rightarrow> crawler" where
  "run_queue l web domain_prefix html_dir code_dir max_depth 0 s = s"
| "run_queue l web domain_prefix html_dir code_dir max_depth (Suc fuel) s =
     (case url_queue s of
        [] \<Rightarrow> s
      | (url, depth) # waiting \<Rightarrow>
          let s1 = s\<lparr>url_queue := waiting\<rparr>
          in if url \<notin> processed_urls s1
             then run_queue l web domain_prefix html_dir code_dir max_depth fuel
                    (snd (process_url l web domain_prefix html_dir code_dir max_depth s1 url depth))
             else run_queue l web domain_prefix html_dir code_dir max_depth fuel s1)"

definition domain_safe_of :: "lib \<Rightarrow> string \<Rightarrow> string" where
  "domain_safe_of l start_url =
     map (\<lambda>c. if c = CHR ''.'' then CHR ''_'' else c) (url_netloc l start_url)"

definition crawl_start ::
  "lib \<Rightarrow> (string \<Rightarrow> fetched) \<Rightarrow> crawler \<Rightarrow> string \<Rightarrow> int \<Rightarrow> py_error + crawler" where
  "crawl_start l web self start_url max_depth =
     (let domain_prefix = url_prefix l start_url;
          domain_safe = domain_safe_of l start_url;
          html_dir = ''data/html/'' @ domain_safe @ ''_html.jsonl'';
          text_dir = ''data/text/'' @ domain_safe @ ''_text.jsonl'';
          code_dir = ''data/code/'' @ domain_safe;
          s = self\<lparr>processed_urls := {}, url_queue := [(start_url, 1)], html_file := []\<rparr>
      in if \<not> makedirs_ok l (dirname html_dir) \<or> \<not> makedirs_ok l (dirname text_dir)
            \<or> \<not> makedirs_ok l code_dir \<or> \<not> open_ok l html_dir
         then Inl OSError
         else Inr (snd (process_url l web domain_prefix html_dir code_dir max_depth s start_url 1)))"

definition crawl ::
  "lib \<Rightarrow> (string \<Rightarrow> fetched) \<Rightarrow> crawler \<Rightarrow> string \<Rightarrow> int \<Rightarrow> nat \<Rightarrow> py_error + crawler" where
  "crawl l web self start_url max_depth fuel =
     (let domain_prefix = url_prefix l start_url;
          domain_safe = domain_safe_of l start_url;
          html_dir = ''data/html/'' @ domain_safe @ ''_html.jsonl'';
          code_dir = ''data/code/'' @ domain_safe
      in case crawl_start l web self start_url max_depth of
           Inl err \<Rightarrow> Inl err
         | Inr s \<Rightarrow> Inr (run_queue l web domain_prefix html_dir code_dir max_depth fuel s))"

definition WebCrawler_init :: crawler where
  "WebCrawler_init =
     \<lparr>processed_urls = {}, url_queue = [], html_file = [], code_data = [], files = []\<rparr>"

section \<open>Properties of the extraction\<close>

lemma split_on_not_empty: "split_on c s \<noteq> []"
  by (induction s) (auto split: list.splits)

lemma join_split_on: "join [c] (split_on c s) = s"
proof (induction s)
  case Nil
  show ?case by simp
next
  case (Cons x xs)
  obtain part parts where ps: "split_on c xs = part # parts"
    using split_on_not_empty [of c xs] by (cases "split_on c xs") auto
  with Cons show ?case by (cases parts) auto
qed

lemma split_on_parts_free: "part \<in> set (split_on c s) \<Longrightarrow> c \<notin> set part"
proof (induction s arbitrary: part)
  case Nil
  then show ?case by simp
next
  case (Cons x xs)
  obtain p ps where ps: "split_on c xs = p # ps"
    using split_on_not_empty [of c xs] by (cases "split_on c xs") auto
  with Cons show ?case by (auto split: if_splits)
qed

lemma split_on_free: "c \<notin> set part \<Longrightarrow> split_on c part = [part]"
  by (induction part) auto

lemma split_on_append:
  "c \<notin> set part \<Longrightarrow> split_on c (part @ c # rest) = part # split_on c rest"
  by (induction part) auto

lemma split_on_join:
  "parts \<noteq> [] \<Longrightarrow> \<forall>part\<in>set parts. c \<notin> set part \<Longrightarrow> split_on c (join [c] parts) = parts"
proof (induction parts)
  case Nil
  then show ?case by simp
next
  case (Cons part ps)
  show ?case
  proof (cases ps)
    case Nil
    with Cons.prems show ?thesis by (simp add: split_on_free)
  next
    case (Cons p ps')
    with Cons.prems Cons.IH show ?thesis by (simp add: split_on_append)
  qed
qed

lemma indent_takeWhile: "indent line = length (takeWhile is_space line)"
proof -
  have "length line = length (takeWhile is_space line) + length (dropWhile is_space line)"
    by (metis length_append takeWhile_dropWhile_id)
  then show ?thesis by (simp add: indent_def lstrip_def)
qed

lemma indent_is_space: "m \<le> indent line \<Longrightarrow> list_all is_space (take m line)"
proof -
  assume "m \<le> indent line"
  then have "take m line = take m (takeWhile is_space line)"
    by (metis indent_takeWhile append_eq_conv_conj take_all_iff take_append takeWhile_dropWhile_id
        diff_is_0_eq' take0 append_Nil2)
  moreover have "list_all is_space (takeWhile is_space line)"
    by (simp add: list_all_iff) (metis set_takeWhileD)
  ultimately show ?thesis
    by (metis list_all_iff in_set_takeD)
qed

lemma min_indent_Some:
  "min_indent acc lines = Some m \<Longrightarrow>
     (\<forall>line\<in>set lines. \<not> blank line \<longrightarrow> m \<le> indent line) \<and>
     ((\<exists>line\<in>set lines. \<not> blank line \<and> indent line = m) \<or> acc = Some m) \<and>
     (\<forall>a. acc = Some a \<longrightarrow> m \<le> a)"
proof (induction lines arbitrary: acc)
  case Nil
  then show ?case by simp
next
  case (Cons line lines)
  show ?case
  proof (cases "blank line")
    case True
    with Cons show ?thesis by simp
  next
    case False
    let ?acc = "Some (case acc of None \<Rightarrow> indent line | Some a \<Rightarrow> min a (indent line))"
    from Cons.prems False have "min_indent ?acc lines = Some m" by simp
    from Cons.IH [OF this] False show ?thesis
      by (cases acc) (auto simp: min_def split: if_splits)
  qed
qed

lemma min_indent_None:
  "min_indent acc lines = None \<longleftrightarrow> acc = None \<and> list_all blank lines"
  by (induction lines arbitrary: acc) auto

text \<open>
  Claim C8, as amended. For a \<^verbatim>\<open>pre\<close> element, the content is the text of the nested
  \<^verbatim>\<open>code\<close> element (or of the element itself) with its strings joined by line breaks and
  its entities decoded. When the content has more than one line and a line that is not
  blank, the result has the same lines in the same number, every blank line as it was and
  every other line without its first \<^verbatim>\<open>m\<close> characters, which are white space, where
  \<^verbatim>\<open>m\<close> is the least indent of the lines that are not blank. A content of one line only
  is returned as it is: the guard \<^verbatim>\<open>len(lines) > 1\<close> leaves its indent in place.
\<close>

theorem common_indent_removed_from_several_lines:
  assumes "tag_name element = ''pre''"
  shows "let content = unescape l (get_text [newline]
                         (case find_tag ''code'' element of Some code_element \<Rightarrow> code_element
                          | None \<Rightarrow> element));
             lines = split_on newline content;
             out = preserve_code_formatting l element
         in (length lines \<le> 1 \<or> list_all blank lines \<longrightarrow> out = content) \<and>
            (1 < length lines \<and> \<not> list_all blank lines \<longrightarrow>
               (\<exists>m. (\<forall>line\<in>set lines. \<not> blank line \<longrightarrow> m \<le> indent line \<and> list_all is_space (take m line)) \<and>
                    (\<exists>line\<in>set lines. \<not> blank line \<and> indent line = m) \<and>
                    split_on newline out
                      = map (\<lambda>line. if blank line then line else drop m line) lines))"
proof -
  define content where "content = unescape l (get_text [newline]
                         (case find_tag ''code'' element of Some code_element \<Rightarrow> code_element
                          | None \<Rightarrow> element))"
  define lines where "lines = split_on newline content"
  have content': "unescape l (case find_tag ''code'' element of
                     Some code_element \<Rightarrow> get_text [newline] code_element
                   | None \<Rightarrow> get_text [newline] element) = content"
    by (simp add: content_def split: option.splits)
  have out: "preserve_code_formatting l element =
      (if length lines > 1 then
         (case min_indent None lines of
            Some m \<Rightarrow> join [newline] (map (fix_line m) lines)
          | None \<Rightarrow> content)
       else content)"
    using assms unfolding lines_def by (simp add: preserve_code_formatting_def content' Let_def)
  have first: "preserve_code_formatting l element = content"
    if "length lines \<le> 1 \<or> list_all blank lines"
    using that min_indent_None [of None lines] by (auto simp: out)
  have second: "\<exists>m. (\<forall>line\<in>set lines. \<not> blank line \<longrightarrow> m \<le> indent line \<and> list_all is_space (take m line)) \<and>
                    (\<exists>line\<in>set lines. \<not> blank line \<and> indent line = m) \<and>
                    split_on newline (preserve_code_formatting l element)
                      = map (\<lambda>line. if blank line then line else drop m line) lines"
    if "1 < length lines" "\<not> list_all blank lines"
  proof -
    from that(2) obtain m where m: "min_indent None lines = Some m"
      using min_indent_None [of None lines] by (cases "min_indent None lines") auto
    from min_indent_Some [OF m]
    have low: "\<forall>line\<in>set lines. \<not> blank line \<longrightarrow> m \<le> indent line"
      and hit: "\<exists>line\<in>set lines. \<not> blank line \<and> indent line = m"
      by auto
    have free: "\<forall>part\<in>set (map (fix_line m) lines). newline \<notin> set part"
      using split_on_parts_free [of _ newline content]
      by (auto simp: lines_def fix_line_def dest: in_set_dropD)
    have "lines \<noteq> []" by (simp add: lines_def split_on_not_empty)
    then have "split_on newline (join [newline] (map (fix_line m) lines)) = map (fix_line m) lines"
      using free by (intro split_on_join) simp_all
    moreover have "fix_line m = (\<lambda>line. if blank line then line else drop m line)"
      by (auto simp: fix_line_def)
    moreover have "preserve_code_formatting l element = join [newline] (map (fix_line m) lines)"
      using that(1) m by (simp add: out)
    ultimately have "split_on newline (preserve_code_formatting l element)
        = map (\<lambda>line. if blank line then line else drop m line) lines"
      by simp
    with low hit show ?thesis by (auto intro: indent_is_space)
  qed
  from first second show ?thesis
    unfolding Let_def content_def [symmetric] lines_def [symmetric] by blast
qed

text \<open>
  A library for the examples: nothing to unescape, no pattern ever matches, the hash of a
  string is its length, a heading loses its spaces, and every URL is one of
  \<^verbatim>\<open>https://example.com\<close>. A link that opens an IPv6 address with \<^verbatim>\<open>//[\<close> is
  refused by \<^verbatim>\<open>urljoin\<close>, every directory with a name can be made and every file can be
  opened.
\<close>

definition plain :: lib where
  "plain = \<lparr>unescape = (\<lambda>s. s), re_search = (\<lambda>p s. False), hash = (\<lambda>s. int (length s)),
             safe_name = (\<lambda>s. filter (\<lambda>c. c \<noteq> CHR '' '') s),
             urljoin = (\<lambda>base href. if prefix ''//['' href then None
                                   else if prefix ''http'' href then Some href
                                   else Some (''https://example.com'' @ href)),
             url_prefix = (\<lambda>u. ''https://example.com''),
             url_netloc = (\<lambda>u. ''example.com''),
             url_path = (\<lambda>u. drop 19 u),
             makedirs_ok = (\<lambda>p. p \<noteq> []),
             open_ok = (\<lambda>p. True)\<rparr>"

lemmas line_defs = blank_def strip_def is_space_def indent_def lstrip_def newline_def

theorem common_indent_removed_from_several_lines_witness:
  "split_on newline (preserve_code_formatting plain
      (Tag ''pre'' None [Tag ''code'' None [Text ''  def f():'', Text ''      return 1'', Text []]]))
   = [''def f():'', ''    return 1'', []]"
proof -
  let ?pre = "Tag ''pre'' None [Tag ''code'' None [Text ''  def f():'', Text ''      return 1'', Text []]]"
  have lines: "split_on newline (unescape plain (get_text [newline]
                 (case find_tag ''code'' ?pre of Some code_element \<Rightarrow> code_element | None \<Rightarrow> ?pre)))
               = [''  def f():'', ''      return 1'', []]"
    by (simp add: plain_def get_text_def newline_def)
  have facts: "\<not> blank ''  def f():''" "\<not> blank ''      return 1''" "blank []"
    "indent ''  def f():'' = 2" "indent ''      return 1'' = 6"
    by (simp_all add: line_defs)
  from common_indent_removed_from_several_lines [of ?pre plain]
  obtain m where "m \<le> 2" "m = 2 \<or> m = 6"
    "split_on newline (preserve_code_formatting plain ?pre)
       = map (\<lambda>line. if blank line then line else drop m line) [''  def f():'', ''      return 1'', []]"
    unfolding Let_def lines using facts by auto
  then show ?thesis using facts by auto
qed

text \<open>
  A \<^verbatim>\<open>pre\<close> element of one line that is indented by four spaces keeps the four spaces.
\<close>

theorem single_line_keeps_its_indent:
  "preserve_code_formatting plain (Tag ''pre'' None [Text ''    x = compute(1)''])
     = ''    x = compute(1)'' \<and>
   \<not> blank ''    x = compute(1)'' \<and> indent ''    x = compute(1)'' = 4 \<and>
   preserve_code_formatting plain (Tag ''pre'' None [Text ''    x = compute(1)''])
     \<noteq> drop 4 ''    x = compute(1)''"
  by (simp add: preserve_code_formatting_def plain_def get_text_def line_defs)

subsection \<open>Language detection\<close>

lemma scan_classes_append:
  "scan_classes (before @ after) =
     (case scan_classes before of Some found \<Rightarrow> Some found | None \<Rightarrow> scan_classes after)"
  by (induction before) (auto split: option.splits)

lemma scan_classes_first_hit:
  "\<forall>token\<in>set before. class_rule token = None \<Longrightarrow> class_rule cls \<noteq> None \<Longrightarrow>
   scan_classes (before @ cls # after) = class_rule cls"
  by (induction before) (auto split: option.splits)

lemma prefix_contains: "prefix sub s \<Longrightarrow> contains sub s"
  by (cases s) auto

lemma split_on_first:
  "\<exists>parts. split_on c s = takeWhile (\<lambda>x. x \<noteq> c) s # parts"
proof (induction s)
  case Nil
  show ?case by simp
next
  case (Cons x xs)
  then show ?case by (auto split: list.splits)
qed

lemma class_rule_prefix:
  assumes "prefix ''language-'' cls"
  shows "class_rule cls = Some (Inr (takeWhile (\<lambda>c. c \<noteq> CHR ''-'') (drop 9 cls)))"
proof -
  from assms obtain rest where cls: "cls = ''language'' @ CHR ''-'' # rest"
    by (auto simp: prefix_def)
  obtain parts where "split_on (CHR ''-'') rest = takeWhile (\<lambda>c. c \<noteq> CHR ''-'') rest # parts"
    using split_on_first by blast
  then have "split_on (CHR ''-'') cls
      = ''language'' # takeWhile (\<lambda>c. c \<noteq> CHR ''-'') rest # parts"
    unfolding cls by (subst split_on_append) simp_all
  moreover have "drop 9 cls = rest" by (simp add: cls)
  ultimately show ?thesis using assms by (simp add: class_rule_def)
qed

lemma class_rule_plain:
  assumes "\<not> contains ''language-'' cls"
  shows "class_rule cls
     = map_option Inr (List.find (\<lambda>lang. contains lang (lower cls)) known_languages)"
proof -
  from assms have "\<not> prefix ''language-'' cls" using prefix_contains by blast
  with assms show ?thesis by (simp add: class_rule_def split: option.splits)
qed

lemma split_str_contains:
  "sep \<noteq> [] \<Longrightarrow> contains sep s \<Longrightarrow>
   \<exists>first second others. split_str sep s = first # second # others"
proof (induction sep s rule: split_str.induct)
  case (1 sep)
  then show ?case by simp
next
  case (2 sep x xs)
  show ?case
  proof (cases "prefix sep (x # xs)")
    case True
    obtain part parts where "split_str sep (drop (length sep) (x # xs)) = part # parts"
      by (cases "drop (length sep) (x # xs)"; cases "split_str sep (drop (length sep) (x # xs))")
         (auto split: if_splits list.splits)
    with True "2.prems" show ?thesis by simp
  next
    case False
    with "2.prems" have "contains sep xs" by simp
    with "2.IH"(2) "2.prems" False obtain first second others
      where "split_str sep xs = first # second # others" by blast
    with False show ?thesis by simp
  qed
qed

lemma class_rule_inside:
  assumes "\<not> prefix ''language-'' cls" and "contains ''language-'' cls"
  shows "\<exists>first second others. split_str ''language-'' cls = first # second # others \<and>
     class_rule cls =
       (if second \<noteq> [] then Some (first_word second)
        else map_option Inr (List.find (\<lambda>lang. contains lang (lower cls)) known_languages))"
proof -
  from split_str_contains [OF _ assms(2)] obtain first second others
    where "split_str ''language-'' cls = first # second # others" by auto
  with assms show ?thesis by (simp add: class_rule_def split: option.splits)
qed

lemma split_str_parts_all: "\<forall>part\<in>set (split_str sep s). set part \<subseteq> set s"
proof (induction sep s rule: split_str.induct)
  case (1 sep)
  then show ?case by simp
next
  case (2 sep x xs)
  show ?case
  proof (cases "sep \<noteq> [] \<and> prefix sep (x # xs)")
    case True
    from "2.IH"(1) [OF True]
    have "\<forall>part\<in>set (split_str sep (drop (length sep) (x # xs))). set part \<subseteq> set (x # xs)"
      by (meson in_set_dropD subset_iff)
    with True show ?thesis by simp
  next
    case False
    from "2.IH"(2) [OF False] have ih: "\<forall>part\<in>set (split_str sep xs). set part \<subseteq> set xs" .
    show ?thesis
    proof (cases "split_str sep xs")
      case Nil
      with False show ?thesis by auto
    next
      case (Cons p ps)
      with ih have "set p \<subseteq> set xs" "\<forall>part\<in>set ps. set part \<subseteq> set xs" by auto
      with False Cons show ?thesis by auto
    qed
  qed
qed

lemma split_str_parts: "part \<in> set (split_str sep s) \<Longrightarrow> set part \<subseteq> set s"
  using split_str_parts_all by blast

lemma first_word_no_space:
  "w \<noteq> [] \<Longrightarrow> \<not> list_ex is_space w \<Longrightarrow> first_word w = Inr w"
proof -
  assume w: "w \<noteq> []" "\<not> list_ex is_space w"
  then have "dropWhile is_space w = w" "takeWhile (\<lambda>c. \<not> is_space c) w = w"
    by (cases w; auto simp: list_ex_iff)+
  with w show ?thesis by (cases w) (auto simp: first_word_def)
qed

lemma class_rule_no_error:
  assumes "\<not> list_ex is_space cls"
  shows "class_rule cls \<noteq> Some (Inl e)"
proof (cases "prefix ''language-'' cls")
  case True
  then show ?thesis by (simp add: class_rule_prefix)
next
  case False
  have "first_word second \<noteq> Inl e"
    if "split_str ''language-'' cls = first # second # others" "second \<noteq> []" for first second others
  proof -
    have "set second \<subseteq> set cls" using that(1) split_str_parts [of second "''language-''" cls] by simp
    with assms have "\<not> list_ex is_space second" by (auto simp: list_ex_iff)
    with that(2) show ?thesis by (simp add: first_word_no_space)
  qed
  with False show ?thesis
    by (auto simp: class_rule_def split: option.splits list.splits if_splits)
qed

lemma scan_classes_no_error:
  "\<forall>token\<in>set tokens. \<not> list_ex is_space token \<Longrightarrow> scan_classes tokens \<noteq> Some (Inl e)"
  by (induction tokens) (auto simp: class_rule_no_error split: option.splits)

text \<open>
  Claim C7, as amended. \<^verbatim>\<open>_detect_language\<close> goes through the class tokens one by one,
  those of the element before those of its parent, and the first token for which a rule
  gives a result decides. Within one token the rule of the \<^verbatim>\<open>language-\<close> prefix (the
  text up to the next hyphen) comes first. A token that does not start with
  \<^verbatim>\<open>language-\<close> but contains it yields the first word of what stands between the first
  \<^verbatim>\<open>language-\<close> and the next one, the second part of the split, when that part is not
  empty. Otherwise the token yields the first known language that its lowered text
  contains. Only when no token gives a result is the content cascade tried, and when no
  pattern matches the result is \<^verbatim>\<open>text\<close>. For tokens without white space, as the parser
  gives them, nothing is raised.
\<close>

theorem language_rules_go_token_by_token:
  "detect_language l element =
     (case scan_classes (class_tokens (tag_class (elem element)) @ class_tokens (parent_class element)) of
        Some found \<Rightarrow> found
      | None \<Rightarrow> Inr (content_language l (get_text [] (elem element)))) \<and>
   ((\<forall>token\<in>set before. class_rule token = None) \<and> class_rule cls \<noteq> None \<longrightarrow>
      scan_classes (before @ cls # after) = class_rule cls) \<and>
   (prefix ''language-'' cls \<longrightarrow>
      class_rule cls = Some (Inr (takeWhile (\<lambda>c. c \<noteq> CHR ''-'') (drop 9 cls)))) \<and>
   (\<not> prefix ''language-'' cls \<and> contains ''language-'' cls \<longrightarrow>
      (\<exists>first second others.
         split_str ''language-'' cls = first # second # others \<and>
         class_rule cls =
           (if second \<noteq> [] then Some (first_word second)
            else map_option Inr (List.find (\<lambda>lang. contains lang (lower cls)) known_languages)))) \<and>
   (\<not> contains ''language-'' cls \<longrightarrow>
      class_rule cls = map_option Inr (List.find (\<lambda>lang. contains lang (lower cls)) known_languages)) \<and>
   ((\<forall>p. \<not> re_search l p code_text) \<longrightarrow> content_language l code_text = ''text'') \<and>
   ((\<forall>token\<in>set (class_tokens (tag_class (elem element)) @ class_tokens (parent_class element)).
        \<not> list_ex is_space token) \<longrightarrow>
      (\<exists>language. detect_language l element = Inr language))"
proof -
  let ?tokens = "class_tokens (tag_class (elem element)) @ class_tokens (parent_class element)"
  have whole: "detect_language l element =
     (case scan_classes ?tokens of
        Some found \<Rightarrow> found
      | None \<Rightarrow> Inr (content_language l (get_text [] (elem element))))"
    by (simp add: detect_language_def scan_classes_append split: option.splits)
  have safe: "\<exists>language. detect_language l element = Inr language"
    if "\<forall>token\<in>set ?tokens. \<not> list_ex is_space token"
  proof (cases "scan_classes ?tokens")
    case None
    then show ?thesis by (simp add: whole)
  next
    case (Some found)
    with scan_classes_no_error [OF that] obtain language where "found = Inr language"
      by (cases found) auto
    with Some show ?thesis by (simp add: whole)
  qed
  have fallback: "content_language l code_text = ''text''" if "\<forall>p. \<not> re_search l p code_text"
    using that by (simp add: content_language_def)
  from whole safe fallback show ?thesis
    using scan_classes_first_hit [of before cls after] class_rule_prefix [of cls]
      class_rule_plain [of cls] class_rule_inside [of cls]
    by blast
qed

lemmas class_defs = class_rule_def class_tokens_def known_languages_def lower_def lower_char_def
  upper_chars_def lower_chars_def first_word_def is_space_def

theorem language_rules_go_token_by_token_witness:
  "detect_language plain
     \<lparr>elem = Tag ''code'' (Some [''wide'', ''language-c-sharp'', ''python'']) [Text ''x = 1''],
      parent_class = Some [''ruby''], nearby_heading = None\<rparr> = Inr ''c'' \<and>
   detect_language plain
     \<lparr>elem = Tag ''code'' (Some [''wide'', ''Highlight-Ruby'']) [Text ''x = 1''],
      parent_class = Some [''language-go''], nearby_heading = None\<rparr> = Inr ''ruby'' \<and>
   detect_language plain
     \<lparr>elem = Tag ''code'' (Some [''wide'', ''js-language-ruby'']) [Text ''x = 1''],
      parent_class = Some [''language-go''], nearby_heading = None\<rparr> = Inr ''ruby'' \<and>
   detect_language plain
     \<lparr>elem = Tag ''code'' (Some [''wide'']) [Text ''x = 1''],
      parent_class = None, nearby_heading = None\<rparr> = Inr ''text''"
proof -
  have none: "class_rule ''wide'' = None" by (simp add: class_defs)
  have parts: "split_str ''language-'' ''js-language-ruby'' = [''js-'', ''ruby'']" by simp
  have "detect_language plain
     \<lparr>elem = Tag ''code'' (Some [''wide'', ''language-c-sharp'', ''python'']) [Text ''x = 1''],
      parent_class = Some [''ruby''], nearby_heading = None\<rparr> = Inr ''c''"
    using language_rules_go_token_by_token [of plain
        "\<lparr>elem = Tag ''code'' (Some [''wide'', ''language-c-sharp'', ''python'']) [Text ''x = 1''],
          parent_class = Some [''ruby''], nearby_heading = None\<rparr>"
        "[''wide'']" "''language-c-sharp''" "[''python'', ''ruby'']" "''x = 1''"] none
    by (simp add: class_tokens_def)
  moreover have "detect_language plain
     \<lparr>elem = Tag ''code'' (Some [''wide'', ''Highlight-Ruby'']) [Text ''x = 1''],
      parent_class = Some [''language-go''], nearby_heading = None\<rparr> = Inr ''ruby''"
    using language_rules_go_token_by_token [of plain
        "\<lparr>elem = Tag ''code'' (Some [''wide'', ''Highlight-Ruby'']) [Text ''x = 1''],
          parent_class = Some [''language-go''], nearby_heading = None\<rparr>"
        "[''wide'']" "''Highlight-Ruby''" "[''language-go'']" "''x = 1''"] none
    by (simp add: class_tokens_def) (simp add: class_defs)
  moreover have "detect_language plain
     \<lparr>elem = Tag ''code'' (Some [''wide'', ''js-language-ruby'']) [Text ''x = 1''],
      parent_class = Some [''language-go''], nearby_heading = None\<rparr> = Inr ''ruby''"
    using language_rules_go_token_by_token [of plain
        "\<lparr>elem = Tag ''code'' (Some [''wide'', ''js-language-ruby'']) [Text ''x = 1''],
          parent_class = Some [''language-go''], nearby_heading = None\<rparr>"
        "[''wide'']" "''js-language-ruby''" "[''language-go'']" "''x = 1''"] none parts
    by (simp add: class_tokens_def first_word_def is_space_def)
  moreover have "detect_language plain
     \<lparr>elem = Tag ''code'' (Some [''wide'']) [Text ''x = 1''],
      parent_class = None, nearby_heading = None\<rparr> = Inr ''text''"
    using language_rules_go_token_by_token [of plain
        "\<lparr>elem = Tag ''code'' (Some [''wide'']) [Text ''x = 1''],
          parent_class = None, nearby_heading = None\<rparr>"
        "[]" "''wide''" "[]" "''x = 1''"] none
    by (simp add: class_tokens_def get_text_def) (simp add: plain_def)
  ultimately show ?thesis by simp
qed

text \<open>
  A token that contains a known language decides before a later \<^verbatim>\<open>language-\<close> token is
  looked at, on the element itself and on its parent.
\<close>

theorem known_language_beats_later_language_token:
  "detect_language plain
     \<lparr>elem = Tag ''code'' (Some [''python'', ''language-ruby'']) [Text ''x = 1''],
      parent_class = None, nearby_heading = None\<rparr> = Inr ''python'' \<and>
   detect_language plain
     \<lparr>elem = Tag ''code'' (Some [''python'']) [Text ''x = 1''],
      parent_class = Some [''language-ruby''], nearby_heading = None\<rparr> = Inr ''python''"
  by (simp add: detect_language_def class_defs)

section \<open>Properties of the crawl\<close>

lemma queue_links_processed:
  "processed_urls (snd (queue_links l domain_prefix url depth links s)) = processed_urls s"
  by (induction links arbitrary: s) (simp_all add: Let_def split: option.splits)

lemma queue_links_queue:
  "url_queue (snd (queue_links l domain_prefix url depth links s)) =
     url_queue s @
     map (\<lambda>u. (u, depth + 1))
       (filter (\<lambda>u. prefix domain_prefix u \<and> u \<notin> processed_urls s)
          (map (\<lambda>absolute_url. case split_on (CHR ''#'') absolute_url of
                                  [] \<Rightarrow> [] | part # parts \<Rightarrow> part)
             (List.map_filter (urljoin l url)
                (takeWhile (\<lambda>href. urljoin l url href \<noteq> None)
                   (filter (\<lambda>href. \<not> (prefix ''#'' href \<or> prefix ''javascript:'' href
                                         \<or> prefix ''mailto:'' href)) links)))))"
  by (induction links arbitrary: s) (auto simp: Let_def map_filter_simps split: option.splits)

lemma queue_links_result:
  "fst (queue_links l domain_prefix url depth links s) =
     (if \<exists>href\<in>set links. \<not> (prefix ''#'' href \<or> prefix ''javascript:'' href \<or> prefix ''mailto:'' href)
                            \<and> urljoin l url href = None
      then Some ValueError else None)"
  by (induction links arbitrary: s) (auto simp: Let_def split: option.splits)

lemma process_url_queue:
  assumes "url \<notin> processed_urls s"
    and "web url = Fetched response"
    and "status_code response = 200"
    and "open_ok l html_dir"
    and "fst (extract_code_blocks l (code_elements response) url code_dir (files s)) = Inr blocks"
  shows "url_queue (snd (process_url l web domain_prefix html_dir code_dir max_depth s url depth)) =
     url_queue s @
     (if depth < max_depth
      then map (\<lambda>u. (u, depth + 1))
             (filter (\<lambda>u. prefix domain_prefix u \<and> u \<notin> insert url (processed_urls s))
                (map (\<lambda>absolute_url. case split_on (CHR ''#'') absolute_url of
                                        [] \<Rightarrow> [] | part # parts \<Rightarrow> part)
                   (List.map_filter (urljoin l url)
                      (takeWhile (\<lambda>href. urljoin l url href \<noteq> None)
                         (filter (\<lambda>href. \<not> (prefix ''#'' href \<or> prefix ''javascript:'' href
                                               \<or> prefix ''mailto:'' href)) (hrefs response))))))
      else [])"
proof -
  obtain files_after where
    "extract_code_blocks l (code_elements response) url code_dir (files s) = (Inr blocks, files_after)"
    using assms(5) by (cases "extract_code_blocks l (code_elements response) url code_dir (files s)") simp
  moreover have "url_queue (snd (case queue_links l domain_prefix url depth links s3 of
                    (None, s4) \<Rightarrow> (Some d, s4) | (Some err, s4) \<Rightarrow> (None, s4)))
                 = url_queue (snd (queue_links l domain_prefix url depth links s3))"
    for links s3 and d :: html_data
    by (cases "queue_links l domain_prefix url depth links s3") (simp split: option.splits)
  ultimately show ?thesis using assms(1-4)
    by (simp add: process_url_def Let_def queue_links_queue split_beta split: option.splits)
qed

lemma process_url_result:
  assumes "url \<notin> processed_urls s"
    and "web url = Fetched response"
    and "status_code response = 200"
    and "open_ok l html_dir"
    and "fst (extract_code_blocks l (code_elements response) url code_dir (files s)) = Inr blocks"
  shows "fst (process_url l web domain_prefix html_dir code_dir max_depth s url depth) =
     (if depth < max_depth \<and>
         (\<exists>href\<in>set (hrefs response).
            \<not> (prefix ''#'' href \<or> prefix ''javascript:'' href \<or> prefix ''mailto:'' href)
            \<and> urljoin l url href = None)
      then None
      else Some \<lparr>data_url = url, data_text = body response, data_status = True,
                 data_host_url = domain_prefix\<rparr>)"
proof -
  obtain files_after where
    "extract_code_blocks l (code_elements response) url code_dir (files s) = (Inr blocks, files_after)"
    using assms(5) by (cases "extract_code_blocks l (code_elements response) url code_dir (files s)") simp
  moreover have "fst (case queue_links l domain_prefix url depth links s3 of
                    (None, s4) \<Rightarrow> (Some d, s4) | (Some err, s4) \<Rightarrow> (None, s4))
                 = (if fst (queue_links l domain_prefix url depth links s3) = None then Some d else None)"
    for links s3 and d :: html_data
    by (cases "queue_links l domain_prefix url depth links s3") (simp split: option.splits)
  ultimately show ?thesis using assms(1-4)
    by (simp add: process_url_def Let_def queue_links_result split: option.splits)
qed

lemma process_url_processed:
  "processed_urls (snd (process_url l web domain_prefix html_dir code_dir max_depth s url depth))
     = insert url (processed_urls s)"
proof -
  have "processed_urls (snd (case queue_links l domain_prefix url depth links s3 of
                    (None, s4) \<Rightarrow> (Some d, s4) | (Some err, s4) \<Rightarrow> (None, s4)))
                 = processed_urls s3"
    for links s3 and d :: html_data
    using queue_links_processed [of l domain_prefix url depth links s3]
    by (cases "queue_links l domain_prefix url depth links s3") (simp split: option.splits)
  then show ?thesis
    by (auto simp: process_url_def Let_def split: fetched.splits prod.splits sum.splits)
qed

lemma run_queue_nothing_new:
  "\<forall>entry\<in>set (url_queue s). fst entry \<in> processed_urls s \<Longrightarrow>
   processed_urls (run_queue l web domain_prefix html_dir code_dir max_depth fuel s) = processed_urls s"
proof (induction fuel arbitrary: s)
  case 0
  show ?case by simp
next
  case (Suc fuel)
  show ?case
  proof (cases "url_queue s")
    case Nil
    then show ?thesis by simp
  next
    case (Cons entry waiting)
    obtain url depth where entry: "entry = (url, depth)" by (cases entry)
    let ?s1 = "s\<lparr>url_queue := waiting\<rparr>"
    from Suc.prems Cons entry have "url \<in> processed_urls ?s1"
      "\<forall>entry\<in>set (url_queue ?s1). fst entry \<in> processed_urls ?s1"
      by auto
    with Suc.IH [of ?s1] Cons entry show ?thesis by (simp add: Let_def)
  qed
qed

text \<open>
  Claim C3, as amended. The seed has depth 1, and the links of a page are queued only when
  the depth of the page is below \<^verbatim>\<open>max_depth\<close>. So with \<^verbatim>\<open>max_depth = 2\<close> the seed and
  its two links into the site are admitted, the links with depth 2, and the link to
  another site never is; with \<^verbatim>\<open>max_depth = 1\<close> the seed is processed and none of its
  links is queued. In general a page that is fetched, written to the HTML file and
  extracted queues, below the maximum depth, its links up to the first one that
  \<^verbatim>\<open>urljoin\<close> refuses: of these exactly the links that are not fragments, scripts or mail
  addresses, that start with the prefix of the site once the fragment is cut off, and that
  are not yet processed, each with the depth of the page plus one. A link that
  \<^verbatim>\<open>urljoin\<close> refuses ends the loop: the links after it are not queued and the task
  returns \<^verbatim>\<open>None\<close>.
\<close>

theorem links_are_queued_below_max_depth:
  assumes "url \<notin> processed_urls s"
    and "web url = Fetched response"
    and "status_code response = 200"
    and "open_ok l html_dir"
    and "fst (extract_code_blocks l (code_elements response) url code_dir (files s)) = Inr blocks"
  shows "url_queue (snd (process_url l web domain_prefix html_dir code_dir max_depth s url depth)) =
     url_queue s @
     (if depth < max_depth
      then map (\<lambda>u. (u, depth + 1))
             (filter (\<lambda>u. prefix domain_prefix u \<and> u \<notin> insert url (processed_urls s))
                (map (\<lambda>absolute_url. case split_on (CHR ''#'') absolute_url of
                                        [] \<Rightarrow> [] | part # parts \<Rightarrow> part)
                   (List.map_filter (urljoin l url)
                      (takeWhile (\<lambda>href. urljoin l url href \<noteq> None)
                         (filter (\<lambda>href. \<not> (prefix ''#'' href \<or> prefix ''javascript:'' href
                                               \<or> prefix ''mailto:'' href)) (hrefs response))))))
      else []) \<and>
     fst (process_url l web domain_prefix html_dir code_dir max_depth s url depth) =
     (if depth < max_depth \<and>
         (\<exists>href\<in>set (hrefs response).
            \<not> (prefix ''#'' href \<or> prefix ''javascript:'' href \<or> prefix ''mailto:'' href)
            \<and> urljoin l url href = None)
      then None
      else Some \<lparr>data_url = url, data_text = body response, data_status = True,
                 data_host_url = domain_prefix\<rparr>)"
  using process_url_queue [where web = web and url = url, OF assms]
    process_url_result [where web = web and url = url, OF assms]
  by (rule conjI)

text \<open>
  A site for the examples: the seed links to two pages of the site and to another site.
  The page \<^verbatim>\<open>/c\<close> has a link that \<^verbatim>\<open>urljoin\<close> refuses between two links into the site.
\<close>

definition snippet :: element where
  "snippet = \<lparr>elem = Tag ''pre'' (Some [''highlight'']) [Text ''print(1 + 2 + 3 + 4)''],
              parent_class = None, nearby_heading = None\<rparr>"

definition site :: "string \<Rightarrow> fetched" where
  "site u =
     (if u = ''https://example.com/'' then
        Fetched \<lparr>status_code = 200, body = ''<html>seed</html>'',
                 hrefs = [''/a'', ''https://example.com/b#top'', ''https://other.org/x''],
                 code_elements = [snippet]\<rparr>
      else if u = ''https://example.com/a'' then
        Fetched \<lparr>status_code = 200, body = ''<html>a</html>'', hrefs = [],
                 code_elements = [snippet]\<rparr>
      else if u = ''https://example.com/b'' then
        Fetched \<lparr>status_code = 200, body = ''<html>b</html>'', hrefs = [], code_elements = []\<rparr>
      else if u = ''https://example.com/c'' then
        Fetched \<lparr>status_code = 200, body = ''<html>c</html>'', hrefs = [''/a'', ''//['', ''/b''],
                 code_elements = []\<rparr>
      else FetchError)"

lemmas extract_defs = extract_code_blocks_def preserve_code_formatting_def detect_language_def
  class_defs line_defs get_text_def heading_of_def safe_heading_of_def path_join_def
  subfolder_of_def strip_slashes_def find_filename.simps numbered_def str_nat.simps
  content_language_def Let_def

lemma seed_blocks:
  "extract_code_blocks plain [snippet] ''https://example.com/'' ''data/code/example_com'' []
   = (Inr [\<lparr>block_url = ''https://example.com/'',
             block_file = ''data/code/example_com/main/CodeExample.md'',
             block_heading = ''Code Example'', block_language = ''text''\<rparr>],
      [(''data/code/example_com/main/CodeExample.md'',
        file_text ''https://example.com/'' ''text'' ''print(1 + 2 + 3 + 4)'')])"
  by (simp add: snippet_def plain_def extract_defs)

lemma seed_state:
  "extract_code_blocks plain [snippet] ''https://example.com/'' ''data/code/example_com''
     (files (WebCrawler_init\<lparr>processed_urls := {}, url_queue := [(''https://example.com/'', 1)],
                         html_file := []\<rparr>))
   = (Inr [\<lparr>block_url = ''https://example.com/'',
             block_file = ''data/code/example_com/main/CodeExample.md'',
             block_heading = ''Code Example'', block_language = ''text''\<rparr>],
      [(''data/code/example_com/main/CodeExample.md'',
        file_text ''https://example.com/'' ''text'' ''print(1 + 2 + 3 + 4)'')])"
  using seed_blocks by (simp add: WebCrawler_init_def)

theorem links_are_queued_below_max_depth_witness:
  "map_sum id url_queue (crawl_start plain site WebCrawler_init ''https://example.com/'' 2)
     = Inr [(''https://example.com/'', 1), (''https://example.com/a'', 2),
            (''https://example.com/b'', 2)] \<and>
   url_queue (snd (process_url plain site ''https://example.com'' ''data/html/example_com_html.jsonl''
                     ''data/code/example_com'' 3 WebCrawler_init ''https://example.com/c'' 2))
     = [(''https://example.com/a'', 3)] \<and>
   fst (process_url plain site ''https://example.com'' ''data/html/example_com_html.jsonl''
          ''data/code/example_com'' 3 WebCrawler_init ''https://example.com/c'' 2) = None"
proof -
  let ?s = "WebCrawler_init\<lparr>processed_urls := {}, url_queue := [(''https://example.com/'', 1)],
                           html_file := []\<rparr>"
  have start: "crawl_start plain site WebCrawler_init ''https://example.com/'' 2
      = Inr (snd (process_url plain site ''https://example.com'' ''data/html/example_com_html.jsonl''
               ''data/code/example_com'' 2 ?s ''https://example.com/'' 1))"
    by (simp add: crawl_start_def domain_safe_of_def dirname_def plain_def)
  have page: "site ''https://example.com/''
      = Fetched \<lparr>status_code = 200, body = ''<html>seed</html>'',
                 hrefs = [''/a'', ''https://example.com/b#top'', ''https://other.org/x''],
                 code_elements = [snippet]\<rparr>"
    by (simp add: site_def)
  have page_c: "site ''https://example.com/c''
      = Fetched \<lparr>status_code = 200, body = ''<html>c</html>'', hrefs = [''/a'', ''//['', ''/b''],
                 code_elements = []\<rparr>"
    by (simp add: site_def)
  have "url_queue (snd (process_url plain site ''https://example.com''
               ''data/html/example_com_html.jsonl'' ''data/code/example_com'' 2 ?s
               ''https://example.com/'' 1))
     = [(''https://example.com/'', 1), (''https://example.com/a'', 2),
        (''https://example.com/b'', 2)]"
    using links_are_queued_below_max_depth [of "''https://example.com/''" ?s site _ plain
        "''data/html/example_com_html.jsonl'' " "''data/code/example_com''" _
        "''https://example.com''" 2 1, OF _ page] seed_state
    by (simp add: plain_def map_filter_simps)
  moreover have "url_queue (snd (process_url plain site ''https://example.com''
               ''data/html/example_com_html.jsonl'' ''data/code/example_com'' 3 WebCrawler_init
               ''https://example.com/c'' 2))
     = [(''https://example.com/a'', 3)] \<and>
   fst (process_url plain site ''https://example.com'' ''data/html/example_com_html.jsonl''
          ''data/code/example_com'' 3 WebCrawler_init ''https://example.com/c'' 2) = None"
    using links_are_queued_below_max_depth [of "''https://example.com/c''" WebCrawler_init site _
        plain "''data/html/example_com_html.jsonl'' " "''data/code/example_com''" "[]"
        "''https://example.com''" 3 2, OF _ page_c]
    by (simp add: plain_def map_filter_simps WebCrawler_init_def extract_code_blocks_def)
  ultimately show ?thesis by (simp add: start)
qed

text \<open>
  With \<^verbatim>\<open>max_depth = 1\<close> the queue holds the seed only after the seed page is processed,
  and the crawl processes no other URL.
\<close>

theorem max_depth_one_admits_the_seed_only:
  "map_sum id url_queue (crawl_start plain site WebCrawler_init ''https://example.com/'' 1)
     = Inr [(''https://example.com/'', 1)] \<and>
   map_sum id processed_urls (crawl plain site WebCrawler_init ''https://example.com/'' 1 5)
     = Inr {''https://example.com/''}"
proof -
  let ?s = "WebCrawler_init\<lparr>processed_urls := {}, url_queue := [(''https://example.com/'', 1)],
                           html_file := []\<rparr>"
  let ?start = "snd (process_url plain site ''https://example.com''
               ''data/html/example_com_html.jsonl'' ''data/code/example_com'' 1 ?s
               ''https://example.com/'' 1)"
  have start: "crawl_start plain site WebCrawler_init ''https://example.com/'' 1 = Inr ?start"
    by (simp add: crawl_start_def domain_safe_of_def dirname_def plain_def)
  have page: "site ''https://example.com/''
      = Fetched \<lparr>status_code = 200, body = ''<html>seed</html>'',
                 hrefs = [''/a'', ''https://example.com/b#top'', ''https://other.org/x''],
                 code_elements = [snippet]\<rparr>"
    by (simp add: site_def)
  have blocks: "fst (extract_code_blocks plain
        (code_elements \<lparr>status_code = 200, body = ''<html>seed</html>'',
                 hrefs = [''/a'', ''https://example.com/b#top'', ''https://other.org/x''],
                 code_elements = [snippet]\<rparr>)
        ''https://example.com/'' ''data/code/example_com'' (files ?s))
      = Inr [\<lparr>block_url = ''https://example.com/'',
             block_file = ''data/code/example_com/main/CodeExample.md'',
             block_heading = ''Code Example'', block_language = ''text''\<rparr>]"
    using seed_state by simp
  have writable: "open_ok plain ''data/html/example_com_html.jsonl''"
    by (simp add: plain_def)
  have queue: "url_queue ?start = [(''https://example.com/'', 1)]"
    using process_url_queue [of "''https://example.com/''" ?s site _ plain
        "''data/html/example_com_html.jsonl''" "''data/code/example_com''" _
        "''https://example.com''" 1 1, OF _ page _ writable blocks]
    by simp
  have seen: "processed_urls ?start = {''https://example.com/''}"
    by (simp add: process_url_processed)
  have "crawl plain site WebCrawler_init ''https://example.com/'' 1 5
      = Inr (run_queue plain site ''https://example.com'' ''data/html/example_com_html.jsonl''
               ''data/code/example_com'' 1 5 ?start)"
    by (simp add: crawl_def start Let_def) (simp add: domain_safe_of_def plain_def)
  moreover have "processed_urls (run_queue plain site ''https://example.com''
      ''data/html/example_com_html.jsonl'' ''data/code/example_com'' 1 5 ?start)
      = processed_urls ?start"
    by (rule run_queue_nothing_new) (simp add: queue seen)
  ultimately show ?thesis using queue seen start by simp
qed

subsection \<open>Code blocks and fingerprints\<close>

lemma find_filename_fresh:
  "path_join save_dir (find_filename existing save_dir safe_heading count filename) \<notin> set existing"
proof (induction existing save_dir safe_heading count filename rule: find_filename.induct)
  case (1 existing save_dir safe_heading count filename)
  then show ?case by (subst find_filename.simps) auto
qed

lemma extract_loop_blocks:
  "extract_loop l url code_dir i elements st = (None, st') \<Longrightarrow>
   \<exists>blocks texts.
      code_blocks st' = code_blocks st @ blocks \<and>
      length texts = length blocks \<and>
      written st' = written st
        @ map (\<lambda>(b, t). (block_file b, file_text url (block_language b) t)) (zip blocks texts) \<and>
      distinct (map (hash l) texts) \<and>
      (\<forall>t\<in>set texts. hash l t \<notin> processed_content st) \<and>
      distinct (map block_file blocks) \<and>
      (\<forall>b\<in>set blocks. block_file b \<notin> fst ` set (written st)) \<and>
      set texts \<subseteq> (\<lambda>e. preserve_code_formatting l (elem e)) ` set elements"
proof (induction elements arbitrary: i st)
  case Nil
  then have "st' = st" by simp
  then show ?case by (intro exI [of _ "[]"]) simp
next
  case (Cons element rest)
  let ?t = "preserve_code_formatting l (elem element)"
  let ?h = "hash l ?t"
  show ?case
  proof (cases "?t = [] \<or> length (strip ?t) < 15 \<or> ?h \<in> processed_content st")
    case True
    with Cons.prems have "extract_loop l url code_dir (Suc i) rest st = (None, st')"
      by (auto simp: Let_def split: if_splits)
    from Cons.IH [OF this] obtain blocks texts where
      "code_blocks st' = code_blocks st @ blocks" "length texts = length blocks"
      "written st' = written st
        @ map (\<lambda>(b, t). (block_file b, file_text url (block_language b) t)) (zip blocks texts)"
      "distinct (map (hash l) texts)" "\<forall>t\<in>set texts. hash l t \<notin> processed_content st"
      "distinct (map block_file blocks)" "\<forall>b\<in>set blocks. block_file b \<notin> fst ` set (written st)"
      "set texts \<subseteq> (\<lambda>e. preserve_code_formatting l (elem e)) ` set rest"
      by blast
    then show ?thesis
      by (intro exI [of _ blocks] exI [of _ texts]) auto
  next
    case False
    then have keep: "?t \<noteq> []" "\<not> length (strip ?t) < 15" "?h \<notin> processed_content st" by auto
    from Cons.prems keep obtain language where language: "detect_language l element = Inr language"
      by (cases "detect_language l element") (auto simp: Let_def)
    let ?heading = "heading_of element"
    let ?safe = "safe_heading_of l i ?heading"
    let ?dir = "path_join code_dir (subfolder_of l url)"
    let ?path = "path_join ?dir (find_filename (map fst (written st)) ?dir ?safe 1 (?safe @ ''.md''))"
    let ?b = "\<lparr>block_url = url, block_file = ?path, block_heading = ?heading,
               block_language = language\<rparr>"
    let ?st1 = "st\<lparr>processed_content := insert ?h (processed_content st),
                    code_blocks := code_blocks st @ [?b],
                    written := written st @ [(?path, file_text url language ?t)]\<rparr>"
    from Cons.prems keep language have "makedirs_ok l ?dir \<and> open_ok l ?path"
      by (auto simp: Let_def split: if_splits)
    with Cons.prems keep language have "extract_loop l url code_dir (Suc i) rest ?st1 = (None, st')"
      by (simp add: Let_def)
    from Cons.IH [OF this] obtain blocks texts where ih:
      "code_blocks st' = code_blocks ?st1 @ blocks" "length texts = length blocks"
      "written st' = written ?st1
        @ map (\<lambda>(b, t). (block_file b, file_text url (block_language b) t)) (zip blocks texts)"
      "distinct (map (hash l) texts)" "\<forall>t\<in>set texts. hash l t \<notin> processed_content ?st1"
      "distinct (map block_file blocks)" "\<forall>b\<in>set blocks. block_file b \<notin> fst ` set (written ?st1)"
      "set texts \<subseteq> (\<lambda>e. preserve_code_formatting l (elem e)) ` set rest"
      by blast
    have fresh: "?path \<notin> fst ` set (written st)"
      using find_filename_fresh [of ?dir "map fst (written st)" ?safe 1 "?safe @ ''.md''"] by simp
    have "code_blocks st' = code_blocks st @ (?b # blocks)" using ih(1) by simp
    moreover have "length (?t # texts) = length (?b # blocks)" using ih(2) by simp
    moreover have "written st' = written st
        @ map (\<lambda>(b, t). (block_file b, file_text url (block_language b) t))
            (zip (?b # blocks) (?t # texts))"
      using ih(3) by simp
    moreover have "distinct (map (hash l) (?t # texts))" using ih(4,5) by auto
    moreover have "\<forall>t\<in>set (?t # texts). hash l t \<notin> processed_content st"
      using ih(5) keep(3) by auto
    moreover have "distinct (map block_file (?b # blocks))" using ih(6,7) by force
    moreover have "\<forall>b\<in>set (?b # blocks). block_file b \<notin> fst ` set (written st)"
      using ih(7) fresh by auto
    moreover have "set (?t # texts) \<subseteq> (\<lambda>e. preserve_code_formatting l (elem e)) ` set (element # rest)"
      using ih(8) by auto
    ultimately show ?thesis
      by (intro exI [of _ "?b # blocks"] exI [of _ "?t # texts"]) blast
  qed
qed

text \<open>
  Claim C1, as amended. The set of hashes is a local variable of
  \<^verbatim>\<open>extract_code_blocks\<close>, so it covers one page. Within one call every block that is
  saved has its own new file, holding its code text, and its own metadata record, and the
  code texts of the saved blocks have different hashes: at most one artifact for a
  fingerprint on a page. Two pages of one crawl each save their own copy of a block.
\<close>

theorem one_artifact_per_fingerprint_on_a_page:
  assumes "extract_code_blocks l elements url code_dir files_before = (Inr blocks, files_after)"
  shows "\<exists>texts.
      length texts = length blocks \<and>
      files_after = files_before
        @ map (\<lambda>(b, t). (block_file b, file_text url (block_language b) t)) (zip blocks texts) \<and>
      distinct (map (hash l) texts) \<and>
      distinct (map block_file blocks) \<and>
      (\<forall>b\<in>set blocks. block_file b \<notin> fst ` set files_before) \<and>
      set texts \<subseteq> (\<lambda>e. preserve_code_formatting l (elem e)) ` set elements"
proof -
  let ?st = "\<lparr>processed_content = {}, code_blocks = [], written = files_before\<rparr>"
  obtain err st' where loop: "extract_loop l url code_dir 0 elements ?st = (err, st')"
    by (cases "extract_loop l url code_dir 0 elements ?st")
  with assms have "err = None" "blocks = code_blocks st'" "files_after = written st'"
    by (auto simp: extract_code_blocks_def split: option.splits)
  with extract_loop_blocks [of l url code_dir 0 elements ?st st'] loop
  show ?thesis by auto
qed

lemma two_snippets:
  "extract_code_blocks plain [snippet, snippet] ''https://example.com/'' ''data/code/example_com'' []
   = (Inr [\<lparr>block_url = ''https://example.com/'',
             block_file = ''data/code/example_com/main/CodeExample.md'',
             block_heading = ''Code Example'', block_language = ''text''\<rparr>],
      [(''data/code/example_com/main/CodeExample.md'',
        file_text ''https://example.com/'' ''text'' ''print(1 + 2 + 3 + 4)'')])"
  by (simp add: snippet_def plain_def extract_defs)

theorem one_artifact_per_fingerprint_on_a_page_witness:
  "extract_code_blocks plain [snippet, snippet] ''https://example.com/'' ''data/code/example_com'' []
   = (Inr [\<lparr>block_url = ''https://example.com/'',
             block_file = ''data/code/example_com/main/CodeExample.md'',
             block_heading = ''Code Example'', block_language = ''text''\<rparr>],
      [(''data/code/example_com/main/CodeExample.md'',
        file_text ''https://example.com/'' ''text'' ''print(1 + 2 + 3 + 4)'')]) \<and>
   (\<exists>texts. length texts = 1 \<and> distinct (map (hash plain) texts) \<and>
      [(''data/code/example_com/main/CodeExample.md'',
        file_text ''https://example.com/'' ''text'' ''print(1 + 2 + 3 + 4)'')]
      = map (\<lambda>(b, t). (block_file b, file_text ''https://example.com/'' (block_language b) t))
          (zip [\<lparr>block_url = ''https://example.com/'',
                  block_file = ''data/code/example_com/main/CodeExample.md'',
                  block_heading = ''Code Example'', block_language = ''text''\<rparr>] texts))"
proof -
  let ?b = "\<lparr>block_url = ''https://example.com/'',
             block_file = ''data/code/example_com/main/CodeExample.md'',
             block_heading = ''Code Example'', block_language = ''text''\<rparr>"
  let ?f = "(''data/code/example_com/main/CodeExample.md'',
             file_text ''https://example.com/'' ''text'' ''print(1 + 2 + 3 + 4)'')"
  obtain texts where one: "length texts = length [?b]"
    and three: "[?f] = [] @ map (\<lambda>(b, t). (block_file b, file_text ''https://example.com/'' (block_language b) t))
                  (zip [?b] texts)"
    and two: "distinct (map (hash plain) texts)"
    using one_artifact_per_fingerprint_on_a_page [OF two_snippets]
    by (elim exE conjE) (rule that)
  have "length texts = 1 \<and> distinct (map (hash plain) texts) \<and>
      [?f] = map (\<lambda>(b, t). (block_file b, file_text ''https://example.com/'' (block_language b) t))
                 (zip [?b] texts)"
    using one two three by (simp only: append_Nil list.size simp_thms)
  then have "\<exists>texts. length texts = 1 \<and> distinct (map (hash plain) texts) \<and>
      [?f] = map (\<lambda>(b, t). (block_file b, file_text ''https://example.com/'' (block_language b) t))
                 (zip [?b] texts)" ..
  with two_snippets show ?thesis by (rule conjI)
qed

text \<open>
  The seed and the page \<^verbatim>\<open>/a\<close> hold the same code block; the crawl writes two files with
  that code and two metadata records.
\<close>

theorem same_block_on_two_pages_is_saved_twice:
  "map_sum id (\<lambda>s. map snd (files s)) (crawl plain site WebCrawler_init ''https://example.com/'' 2 5)
     = Inr [file_text ''https://example.com/'' ''text'' ''print(1 + 2 + 3 + 4)'',
            file_text ''https://example.com/a'' ''text'' ''print(1 + 2 + 3 + 4)''] \<and>
   map_sum id (\<lambda>s. map fst (files s)) (crawl plain site WebCrawler_init ''https://example.com/'' 2 5)
     = Inr [''data/code/example_com/main/CodeExample.md'',
            ''data/code/example_com/a/CodeExample.md''] \<and>
   map_sum id (\<lambda>s. map block_url (code_data s))
       (crawl plain site WebCrawler_init ''https://example.com/'' 2 5)
     = Inr [''https://example.com/'', ''https://example.com/a'']"
  by code_simp

section \<open>WebHtmlExtractor: the base URL and its links\<close>

text \<open>\<^verbatim>\<open>list(dict.fromkeys(xs))\<close>: the first occurrence of every element, in order.\<close>

definition first_occurrences :: "'a list \<Rightarrow> 'a list" where
  "first_occurrences xs = rev (remdups (rev xs))"

text \<open>
  \<^verbatim>\<open>get_link_sub_url_list\<close>. The parser gives the \<^verbatim>\<open>href\<close> of every link of a text,
  \<^verbatim>\<open>None\<close> where a link has none. A link that \<^verbatim>\<open>urljoin\<close> refuses raises
  \<^verbatim>\<open>ValueError\<close>, which nothing here catches.
\<close>

fun link_urls :: "lib \<Rightarrow> string \<Rightarrow> string \<Rightarrow> string option list \<Rightarrow> py_error + string list" where
  "link_urls l host_url target [] = Inr []"
| "link_urls l host_url target (link # links) =
     (case link of
        None \<Rightarrow> link_urls l host_url target links
      | Some href \<Rightarrow>
          if href = [] \<or> prefix ''#'' href \<or> prefix ''javascript:'' href \<or> prefix ''mailto:'' href
          then link_urls l host_url target links
          else
            case urljoin l host_url href of
              None \<Rightarrow> Inl ValueError
            | Some absolute_url \<Rightarrow>
                (case link_urls l host_url target links of
                   Inl err \<Rightarrow> Inl err
                 | Inr found \<Rightarrow>
                     if prefix target absolute_url
                     then Inr ((case split_on (CHR ''#'') absolute_url of
                                  [] \<Rightarrow> []
                                | part # parts \<Rightarrow> part) # found)
                     else Inr found))"

definition get_link_sub_url_list ::
  "net \<Rightarrow> lib \<Rightarrow> (string \<Rightarrow> string option list) \<Rightarrow> html_dict \<Rightarrow> string option
     \<Rightarrow> py_error + string list" where
  "get_link_sub_url_list env l anchors html_dict target_url_prefix =
     (let url = html_url html_dict;
          sub_url_list = (if url = [] then [] else [url])
      in case html_text html_dict of
           None \<Rightarrow> Inr sub_url_list
         | Some html_content \<Rightarrow>
             if html_content = [] then Inr sub_url_list
             else
               let target = or_default target_url_prefix url;
                   host_url = (if url = [] then [] else split_host_url env url)
               in case link_urls l host_url target (anchors html_content) of
                    Inl err \<Rightarrow> Inl err
                  | Inr found \<Rightarrow> Inr (first_occurrences (sub_url_list @ found)))"

text \<open>
  \<^verbatim>\<open>save_1_jump_url_in_base\<close>: the directory of \<^verbatim>\<open>html_dir\<close> is made, which raises
  \<^verbatim>\<open>TypeError\<close> for the default \<^verbatim>\<open>None\<close> and \<^verbatim>\<open>FileNotFoundError\<close>, an \<^verbatim>\<open>OSError\<close>,
  for a path without a directory. Then the base URL is fetched and saved, and every URL
  of the list but the first is fetched, and saved when its \<^verbatim>\<open>status\<close> is true. The
  result is the list of the dictionaries given to \<^verbatim>\<open>save_jsonl\<close>.
\<close>

fun save_sub_urls ::
  "net \<Rightarrow> string \<Rightarrow> string \<Rightarrow> rat \<Rightarrow> rat \<Rightarrow> string list \<Rightarrow> html_dict list \<Rightarrow> extractor
     \<Rightarrow> (py_error + html_dict list) \<times> extractor" where
  "save_sub_urls env reptile_lib method delay timeout [] saved s = (Inr saved, s)"
| "save_sub_urls env reptile_lib method delay timeout (sub_url # sub_urls) saved s =
     (case get_html_dict env s sub_url reptile_lib method True (Some delay) (Some timeout) of
        (Inl err, s') \<Rightarrow> (Inl err, s')
      | (Inr sub_html_dict, s') \<Rightarrow>
          save_sub_urls env reptile_lib method delay timeout sub_urls
            (if html_status sub_html_dict then saved @ [sub_html_dict] else saved) s')"

definition save_1_jump_url_in_base ::
  "net \<Rightarrow> lib \<Rightarrow> (string \<Rightarrow> string option list) \<Rightarrow> extractor \<Rightarrow> string \<Rightarrow> string option
     \<Rightarrow> string \<Rightarrow> string \<Rightarrow> rat option \<Rightarrow> rat option \<Rightarrow> string option
     \<Rightarrow> (py_error + html_dict list) \<times> extractor" where
  "save_1_jump_url_in_base env l anchors s base_url target_url_prefix reptile_lib method
       time_sleep_arg time_out_arg html_dir =
     (let timeout = or_default time_out_arg (time_out s);
          delay = or_default time_sleep_arg (time_sleep s)
      in case html_dir of
           None \<Rightarrow> (Inl TypeError, s)
         | Some path \<Rightarrow>
             if dirname path = [] \<or> \<not> makedirs_ok l (dirname path) then (Inl OSError, s)
             else
               case get_html_dict env s base_url reptile_lib method True (Some delay) (Some timeout) of
                 (Inl err, s1) \<Rightarrow> (Inl err, s1)
               | (Inr html_dict, s1) \<Rightarrow>
                   let target = or_default target_url_prefix (html_url html_dict)
                   in case get_link_sub_url_list env l anchors html_dict (Some target) of
                        Inl err \<Rightarrow> (Inl err, s1)
                      | Inr sub_url_list \<Rightarrow>
                          save_sub_urls env reptile_lib method delay timeout (drop 1 sub_url_list)
                            [html_dict] s1)"







text \<open>
  A site whose base page links to \<^verbatim>\<open>/x\<close>, which always answers 500, and to \<^verbatim>\<open>/y\<close>.
\<close>

definition flaky :: net where
  "flaky = \<lparr>http = (\<lambda>n rq. if rq_url rq = ''https://example.com/''
                              then Response 200 ''https://example.com/'' ''<html>base</html>''
                            else if rq_url rq = ''https://example.com/y''
                              then Response 200 ''https://example.com/y'' ''<html>y</html>''
                            else Response 500 (rq_url rq) []),
             browser = (\<lambda>n u. PageFails),
             user_agent = (\<lambda>n. ''agent''),
             scheme_netloc = (\<lambda>u. ''https://example.com'')\<rparr>"

definition base_links :: "string \<Rightarrow> string option list" where
  "base_links html = (if html = ''<html>base</html>''
                      then [Some ''#top'', Some ''/x'', None, Some ''/y'', Some ''/x'']
                      else [])"


text \<open>
  Without a path for the output file, with a path that has no directory, and with a link on
  the base page that \<^verbatim>\<open>urljoin\<close> refuses, \<^verbatim>\<open>save_1_jump_url_in_base\<close> raises.
\<close>

lemma one_jump_raises:
  "fst (save_1_jump_url_in_base flaky plain base_links (init flaky None [] 1 20 1)
          ''https://example.com/'' None ''requests'' ''get'' None None None) = Inl TypeError"
  "fst (save_1_jump_url_in_base flaky plain base_links (init flaky None [] 1 20 1)
          ''https://example.com/'' None ''requests'' ''get'' None None (Some ''example.jsonl''))
     = Inl OSError"
  "fst (save_1_jump_url_in_base flaky plain (\<lambda>html. [Some ''/y'', Some ''//['']) (init flaky None [] 1 20 1)
          ''https://example.com/'' None ''requests'' ''get'' None None (Some ''data/html/example.jsonl''))
     = Inl ValueError"
  by code_simp+


end
